theory Spec2Isabelle
  imports Main "HOL-Library.Multiset"
begin

section \<open>Library values used by the downloader\<close>

subsection \<open>Strings\<close>

text \<open>
  Instrument names and symbols are ASCII text. \<^verbatim>\<open>str.lower()\<close> maps the letters
  \<^verbatim>\<open>A\<close>..\<^verbatim>\<open>Z\<close> to \<^verbatim>\<open>a\<close>..\<^verbatim>\<open>z\<close> and leaves every other character alone.
\<close>

definition lower_char :: "char \<Rightarrow> char" where
  "lower_char c =
     (case map_of (zip ''ABCDEFGHIJKLMNOPQRSTUVWXYZ'' ''abcdefghijklmnopqrstuvwxyz'') c of
        Some l \<Rightarrow> l
      | None \<Rightarrow> c)"

definition lower :: "string \<Rightarrow> string" where
  "lower s = map lower_char s"

text \<open>\<^verbatim>\<open>str(n)\<close> for a non-negative integer, and zero padding to a width.\<close>

definition digit_char :: "nat \<Rightarrow> char" where
  "digit_char k = ''0123456789'' ! k"

fun str_nat :: "nat \<Rightarrow> string" where
  "str_nat n = (if n < 10 then [digit_char n] else str_nat (n div 10) @ [digit_char (n mod 10)])"

declare str_nat.simps [simp del]

definition zfill :: "nat \<Rightarrow> string \<Rightarrow> string" where
  "zfill w s = replicate (w - length s) (CHR ''0'') @ s"

subsection \<open>Calendar dates\<close>

text \<open>
  A \<^verbatim>\<open>datetime.date\<close> is represented by its proleptic Gregorian ordinal
  (\<^verbatim>\<open>date.toordinal()\<close>, 1 for 0001-01-01), which is how the library itself adds a
  \<^verbatim>\<open>timedelta\<close> and computes the weekday. Comparison of dates is comparison of
  ordinals, \<^verbatim>\<open>d + timedelta(days=1)\<close> is \<open>d + 1\<close>, and the fields \<^verbatim>\<open>year\<close>,
  \<^verbatim>\<open>month\<close>, \<^verbatim>\<open>day\<close> are read off the ordinal by the library's conversion
  \<^verbatim>\<open>_ord2ymd\<close>, written out below with its constants.
\<close>

type_synonym date = nat

definition is_leap :: "nat \<Rightarrow> bool" where
  "is_leap year = (year mod 4 = 0 \<and> (year mod 100 \<noteq> 0 \<or> year mod 400 = 0))"

definition days_before_year :: "nat \<Rightarrow> nat" where
  "days_before_year year = (let y = year - 1 in y * 365 + y div 4 - y div 100 + y div 400)"

text \<open>Index 0 of both tables is a placeholder that no month reads.\<close>

definition DAYS_IN_MONTH :: "nat list" where
  "DAYS_IN_MONTH = [0, 31, 28, 31, 30, 31, 30, 31, 31, 30, 31, 30, 31]"

definition DAYS_BEFORE_MONTH :: "nat list" where
  "DAYS_BEFORE_MONTH = [0, 0, 31, 59, 90, 120, 151, 181, 212, 243, 273, 304, 334]"

definition days_before_month :: "nat \<Rightarrow> nat \<Rightarrow> nat" where
  "days_before_month year month =
     DAYS_BEFORE_MONTH ! month + (if month > 2 \<and> is_leap year then 1 else 0)"

definition ymd2ord :: "nat \<Rightarrow> nat \<Rightarrow> nat \<Rightarrow> date" where
  "ymd2ord year month day = days_before_year year + days_before_month year month + day"

definition ord2ymd :: "date \<Rightarrow> nat \<times> nat \<times> nat" where
  "ord2ymd ordinal =
     (let n = ordinal - 1;
          n400 = n div 146097; n = n mod 146097;
          n100 = n div 36524; n = n mod 36524;
          n4 = n div 1461; n = n mod 1461;
          n1 = n div 365; n = n mod 365;
          year = n400 * 400 + 1 + n100 * 100 + n4 * 4 + n1
      in if n1 = 4 \<or> n100 = 4 then (year - 1, 12, 31)
         else
           let leapyear = (n1 = 3 \<and> (n4 \<noteq> 24 \<or> n100 = 3));
               month = (n + 50) div 32;
               preceding = DAYS_BEFORE_MONTH ! month + (if month > 2 \<and> leapyear then 1 else 0)
           in if preceding > n
              then let month' = month - 1;
                       preceding' = preceding -
                         (DAYS_IN_MONTH ! month' + (if month' = 2 \<and> leapyear then 1 else 0))
                   in (year, month', n - preceding' + 1)
              else (year, month, n - preceding + 1))"

definition year :: "date \<Rightarrow> nat" where
  "year d = fst (ord2ymd d)"

definition month :: "date \<Rightarrow> nat" where
  "month d = fst (snd (ord2ymd d))"

definition day :: "date \<Rightarrow> nat" where
  "day d = snd (snd (ord2ymd d))"

text \<open>\<^verbatim>\<open>date.weekday()\<close>: Monday is 0, Saturday 5, Sunday 6.\<close>

definition weekday :: "date \<Rightarrow> nat" where
  "weekday d = (d + 6) mod 7"

text \<open>
  \<^verbatim>\<open>date.strftime('%d_%m_%Y')\<close>, as the library documents it: day and month
  zero-padded to two digits, the year with century zero-padded to four.
\<close>

definition strftime_d_m_Y :: "date \<Rightarrow> string" where
  "strftime_d_m_Y d =
     zfill 2 (str_nat (day d)) @ ''_'' @ zfill 2 (str_nat (month d)) @ ''_'' @
     zfill 4 (str_nat (year d))"

subsection \<open>Paths\<close>

text \<open>
  A \<^verbatim>\<open>pathlib.Path\<close> is the list of its components below the root. The operator
  \<^verbatim>\<open>/\<close> with a string on the right parses the string: it is cut at every slash,
  empty components and \<^verbatim>\<open>.\<close> are dropped, and a string that starts with a slash
  is absolute and replaces the left operand. A component \<^verbatim>\<open>..\<close> is kept as it is, as
  \<^verbatim>\<open>pathlib\<close> keeps it; in the file system below, different lists of components are
  different places (no symbolic links, no resolution of \<^verbatim>\<open>..\<close>).
\<close>

type_synonym path = "string list"

fun split_slash :: "string \<Rightarrow> string list" where
  "split_slash [] = [[]]"
| "split_slash (c # cs) =
     (if c = CHR ''/'' then [] # split_slash cs
      else (case split_slash cs of [] \<Rightarrow> [[c]] | p # ps \<Rightarrow> (c # p) # ps))"

definition parts :: "string \<Rightarrow> path" where
  "parts s = filter (\<lambda>p. p \<noteq> [] \<and> p \<noteq> ''.'') (split_slash s)"

definition joinpath :: "path \<Rightarrow> string \<Rightarrow> path" where
  "joinpath p s = (case s of c # _ \<Rightarrow> if c = CHR ''/'' then parts s else p @ parts s | [] \<Rightarrow> p)"

definition parent :: "path \<Rightarrow> path" where
  "parent p = butlast p"

definition str_path :: "path \<Rightarrow> string" where
  "str_path p = concat (map (\<lambda>c. ''/'' @ c) p)"

subsection \<open>Data frames\<close>

text \<open>
  A \<^verbatim>\<open>pandas.DataFrame\<close> is its list of column labels and its rows, each row a
  list of cells in the order of the labels. A cell is a text, another value (a number),
  or the missing value. The operations below are those of \<^verbatim>\<open>pandas\<close> on a frame
  whose labels are distinct (\<open>distinct (columns df)\<close>): a label then names one column.
  On a frame with a repeated label \<^verbatim>\<open>pandas\<close> differs (a selection keeps every column
  that carries a selected label, and a boolean index built from a repeated label is
  refused), where these definitions read the first column with the label; the theorems
  about the result of classification therefore assume distinct labels. A row that is too
  short has the missing value in the columns it lacks.
\<close>

datatype 'v cell = Text string | Other 'v | NaN

record 'v dataframe =
  columns :: "string list"
  rows :: "'v cell list list"

fun index_of :: "'a \<Rightarrow> 'a list \<Rightarrow> nat" where
  "index_of x [] = 0"
| "index_of x (y # ys) = (if x = y then 0 else Suc (index_of x ys))"

definition cell_at :: "string list \<Rightarrow> 'v cell list \<Rightarrow> string \<Rightarrow> 'v cell" where
  "cell_at cols r c = (let k = index_of c cols in if k < length r then r ! k else NaN)"

text \<open>
  Exceptions, each with the text that \<^verbatim>\<open>str(e)\<close> gives. These are the exceptions
  derived from \<^verbatim>\<open>Exception\<close>, the ones an \<^verbatim>\<open>except Exception\<close> clause catches:
  those of the libraries as far as the file system and the frames below can raise them,
  and \<open>RemoteError\<close> for whatever the remote collaborator raises. The wording of the
  libraries' messages is not modelled beyond naming the offending labels or path.
\<close>

datatype exn =
    KeyError string
  | FileExistsError string
  | NotADirectoryError string
  | IsADirectoryError string
  | OSError string
  | ValueError string
  | RemoteError string

fun str_exn :: "exn \<Rightarrow> string" where
  "str_exn (KeyError m) = m"
| "str_exn (FileExistsError m) = m"
| "str_exn (NotADirectoryError m) = m"
| "str_exn (IsADirectoryError m) = m"
| "str_exn (OSError m) = m"
| "str_exn (ValueError m) = m"
| "str_exn (RemoteError m) = m"

text \<open>
  \<^verbatim>\<open>df[labels]\<close> with a list of labels, on a frame with distinct labels: a
  \<^verbatim>\<open>KeyError\<close> naming the missing labels when one is not a column, otherwise the frame
  restricted to these columns, in the order asked for.
\<close>

definition getitem_cols :: "'v dataframe \<Rightarrow> string list \<Rightarrow> exn + 'v dataframe" where
  "getitem_cols df labels =
     (case filter (\<lambda>c. c \<notin> set (columns df)) labels of
        [] \<Rightarrow> Inr \<lparr>columns = labels,
                   rows = map (\<lambda>r. map (cell_at (columns df) r) labels) (rows df)\<rparr>
      | missing \<Rightarrow> Inl (KeyError (concat (map (\<lambda>c. c @ '' '') missing) @ ''not in index'')))"

text \<open>
  On a frame with distinct labels, \<^verbatim>\<open>df['symbol'] == s\<close> is true on the rows whose
  symbol cell is the text \<open>s\<close>; \<^verbatim>\<open>df[mask]\<close> keeps the rows where the mask is true
  and all columns.
\<close>

definition symbol_eq :: "'v dataframe \<Rightarrow> string \<Rightarrow> 'v cell list \<Rightarrow> bool" where
  "symbol_eq df s r = (cell_at (columns df) r ''symbol'' = Text s)"

definition getitem_mask :: "'v dataframe \<Rightarrow> ('v cell list \<Rightarrow> bool) \<Rightarrow> 'v dataframe" where
  "getitem_mask df msk = df\<lparr>rows := filter msk (rows df)\<rparr>"

text \<open>\<^verbatim>\<open>df.empty\<close>: some axis has length 0.\<close>

definition empty_df :: "'v dataframe \<Rightarrow> bool" where
  "empty_df df = (columns df = [] \<or> rows df = [])"

section \<open>The downloader\<close>

subsection \<open>process\_data\<close>

record 'v data_dict =
  futures :: "'v dataframe"
  spot :: "'v dataframe"
  options :: "'v dataframe"

definition base_columns :: "string list" where
  "base_columns =
     [''date'', ''time'', ''symbol'', ''open'', ''high'', ''low'', ''close'', ''oi'', ''volume'']"

definition spot_columns :: "string list" where
  "spot_columns = [''date'', ''time'', ''symbol'', ''open'', ''high'', ''low'', ''close'']"

definition process_data :: "'v dataframe \<Rightarrow> string \<Rightarrow> exn + 'v data_dict" where
  "process_data data0 instrument =
     (case getitem_cols data0 base_columns of
        Inl e \<Rightarrow> Inl e
      | Inr data \<Rightarrow>
          let spot_symbol = instrument;
              futures_symbol = instrument @ ''-I''
          in case getitem_cols (getitem_mask data (symbol_eq data spot_symbol)) spot_columns of
               Inl e \<Rightarrow> Inl e
             | Inr spot_rows \<Rightarrow>
                 Inr \<lparr>futures = getitem_mask data (symbol_eq data futures_symbol),
                      spot = spot_rows,
                      options = getitem_mask data
                        (\<lambda>r. \<not> symbol_eq data spot_symbol r \<and> \<not> symbol_eq data futures_symbol r)\<rparr>)"

subsection \<open>The world outside: file system and collaborator calls\<close>

text \<open>
  The world a task acts on: the directories and the files of the file system (the root
  directory always exists; a file holds the frame written to it), and the log of the
  calls made to the collaborators, in the order they were made: directory creation,
  the remote fetch, and the file writes. Logging is not modelled.
\<close>

datatype 'v call = Mkdir path | GetData string date | ToCsv path "'v dataframe"

record 'v world =
  dirs :: "path set"
  files :: "path \<rightharpoonup> 'v dataframe"
  calls :: "'v call list"

definition is_dir :: "'v world \<Rightarrow> path \<Rightarrow> bool" where
  "is_dir w p = (p = [] \<or> p \<in> dirs w)"

definition is_file :: "'v world \<Rightarrow> path \<Rightarrow> bool" where
  "is_file w p = (files w p \<noteq> None)"

text \<open>
  \<^verbatim>\<open>Path.mkdir(parents=True, exist_ok=True)\<close>: an existing directory is accepted, an
  existing file is an error, a missing parent is created first (recursively), and a
  parent that is a file is an error. Nothing is created when an error is raised.
\<close>

function mkdir :: "path \<Rightarrow> 'v world \<Rightarrow> exn + 'v world" where
  "mkdir p w =
     (if is_dir w p then Inr w
      else if is_file w p then Inl (FileExistsError (str_path p))
      else if is_dir w (parent p) then Inr (w\<lparr>dirs := insert p (dirs w)\<rparr>)
      else if is_file w (parent p) then Inl (NotADirectoryError (str_path p))
      else (case mkdir (parent p) w of
              Inl e \<Rightarrow> Inl e
            | Inr w' \<Rightarrow> Inr (w'\<lparr>dirs := insert p (dirs w')\<rparr>)))"
  by pat_completeness auto
termination
  by (relation "measure (\<lambda>(p, w). length p)") (auto simp: is_dir_def parent_def)

declare mkdir.simps [simp del]

definition path_mkdir :: "path \<Rightarrow> 'v world \<Rightarrow> (exn + unit) \<times> 'v world" where
  "path_mkdir p w =
     (let w1 = w\<lparr>calls := calls w @ [Mkdir p]\<rparr>
      in case mkdir p w1 of Inl e \<Rightarrow> (Inl e, w1) | Inr w2 \<Rightarrow> (Inr (), w2))"

text \<open>
  \<^verbatim>\<open>DataFrame.to_csv(path, index=False)\<close>: an error when the parent of the path is not
  a directory or the path is a directory; otherwise the file is written, replacing an
  older one.
\<close>

definition to_csv :: "'v dataframe \<Rightarrow> path \<Rightarrow> 'v world \<Rightarrow> (exn + unit) \<times> 'v world" where
  "to_csv df p w =
     (let w1 = w\<lparr>calls := calls w @ [ToCsv p df]\<rparr>
      in if \<not> is_dir w1 (parent p)
         then (Inl (OSError (''Cannot save file into a non-existent directory: '' @
                 str_path (parent p))), w1)
         else if is_dir w1 p then (Inl (IsADirectoryError (str_path p)), w1)
         else (Inr (), w1\<lparr>files := (files w1)(p \<mapsto> df)\<rparr>))"

subsection \<open>MarketDataDownloader\<close>

text \<open>
  The downloader object: its base path and the remote collaborator's one operation,
  \<^verbatim>\<open>self.ma.get_data(code, date)\<close>, which returns a frame or raises.
\<close>

record 'v downloader =
  base_path :: path
  ma_get_data :: "string \<Rightarrow> date \<Rightarrow> exn + 'v dataframe"

record directories =
  fut_dir :: path
  spot_dir :: path
  options_dir :: path

definition leg_directory :: "'v downloader \<Rightarrow> date \<Rightarrow> string \<Rightarrow> string \<Rightarrow> path" where
  "leg_directory self date instrument leg =
     joinpath (joinpath (joinpath (base_path self) (lower instrument @ ''_'' @ leg))
       (str_nat (year date))) (str_nat (month date))"

fun mkdir_each :: "path list \<Rightarrow> 'v world \<Rightarrow> (exn + unit) \<times> 'v world" where
  "mkdir_each [] w = (Inr (), w)"
| "mkdir_each (p # ps) w =
     (case path_mkdir p w of
        (Inl e, w1) \<Rightarrow> (Inl e, w1)
      | (Inr u, w1) \<Rightarrow> mkdir_each ps w1)"

definition create_directory_structure ::
  "'v downloader \<Rightarrow> date \<Rightarrow> string \<Rightarrow> 'v world \<Rightarrow> (exn + directories) \<times> 'v world" where
  "create_directory_structure self date instrument w =
     (let directories = \<lparr>fut_dir = leg_directory self date instrument ''fut'',
                         spot_dir = leg_directory self date instrument ''spot'',
                         options_dir = leg_directory self date instrument ''options''\<rparr>
      in case mkdir_each [fut_dir directories, spot_dir directories, options_dir directories] w of
           (Inl e, w1) \<Rightarrow> (Inl e, w1)
         | (Inr u, w1) \<Rightarrow> (Inr directories, w1))"

definition csv_name :: "string \<Rightarrow> string \<Rightarrow> date \<Rightarrow> string" where
  "csv_name instrument leg date =
     lower instrument @ ''_'' @ leg @ ''_'' @ strftime_d_m_Y date @ ''.csv''"

definition save_group ::
  "'v dataframe \<Rightarrow> path \<Rightarrow> string \<Rightarrow> 'v world \<Rightarrow> (exn + unit) \<times> 'v world" where
  "save_group df dir name w =
     (if \<not> empty_df df then to_csv df (joinpath dir name) w else (Inr (), w))"

definition save_data ::
  "'v data_dict \<Rightarrow> directories \<Rightarrow> date \<Rightarrow> string \<Rightarrow> 'v world \<Rightarrow> (exn + unit) \<times> 'v world" where
  "save_data data_dict directories date instrument w =
     (case save_group (futures data_dict) (fut_dir directories)
             (csv_name instrument ''fut'' date) w of
        (Inl e, w1) \<Rightarrow> (Inl e, w1)
      | (Inr u, w1) \<Rightarrow>
          (case save_group (spot data_dict) (spot_dir directories)
                  (csv_name instrument ''spot'' date) w1 of
             (Inl e, w2) \<Rightarrow> (Inl e, w2)
           | (Inr u, w2) \<Rightarrow>
               save_group (options data_dict) (options_dir directories)
                 (csv_name instrument ''options'' date) w2))"

text \<open>
  One task. \<open>try_block\<close> is the body of the \<^verbatim>\<open>try\<close> statement: it returns
  normally (both \<^verbatim>\<open>return None\<close>) or raises. The task's result is \<open>None\<close> for the
  Python \<^verbatim>\<open>None\<close>, and the failure tuple \<^verbatim>\<open>(date, instrument, str(e))\<close> when the
  \<^verbatim>\<open>except Exception\<close> clause caught \<open>e\<close>.
\<close>

type_synonym failure = "date \<times> string \<times> string"

definition try_block ::
  "'v downloader \<Rightarrow> date \<Rightarrow> string \<Rightarrow> 'v world \<Rightarrow> (exn + unit) \<times> 'v world" where
  "try_block self date instrument w =
     (if weekday date \<in> {5, 6} then (Inr (), w)
      else
        case create_directory_structure self date instrument w of
          (Inl e, w1) \<Rightarrow> (Inl e, w1)
        | (Inr directories, w1) \<Rightarrow>
            let w2 = w1\<lparr>calls := calls w1 @ [GetData (lower instrument) date]\<rparr>
            in case ma_get_data self (lower instrument) date of
                 Inl e \<Rightarrow> (Inl e, w2)
               | Inr raw_data \<Rightarrow>
                   (case process_data raw_data instrument of
                      Inl e \<Rightarrow> (Inl e, w2)
                    | Inr processed_data \<Rightarrow>
                        save_data processed_data directories date instrument w2))"

definition download_single_date_instrument ::
  "'v downloader \<Rightarrow> date \<Rightarrow> string \<Rightarrow> 'v world \<Rightarrow> failure option \<times> 'v world" where
  "download_single_date_instrument self date instrument w =
     (case try_block self date instrument w of
        (Inl e, w1) \<Rightarrow> (Some (date, instrument, str_exn e), w1)
      | (Inr u, w1) \<Rightarrow> (None, w1))"

subsection \<open>download\_data\<close>

text \<open>
  The \<^verbatim>\<open>while\<close> loop that collects the dates, with its accumulator. The increment is
  only applied to a date before \<open>end_date\<close>, so it cannot leave the range of dates and
  raise.
\<close>

function date_loop :: "date \<Rightarrow> date \<Rightarrow> date list \<Rightarrow> date list" where
  "date_loop current_date end_date dates =
     (if current_date < end_date
      then date_loop (current_date + 1) end_date (dates @ [current_date])
      else dates)"
  by pat_completeness auto
termination
  by (relation "measure (\<lambda>(c, e, ds). e - c)") auto

declare date_loop.simps [simp del]

definition make_tasks :: "date list \<Rightarrow> string list \<Rightarrow> (date \<times> string) list" where
  "make_tasks dates instruments =
     concat (map (\<lambda>date. map (\<lambda>instrument. (date, instrument)) instruments) dates)"

text \<open>
  The thread pool. Each submitted task runs to completion on a worker; the pool is
  modelled by the order \<open>sched\<close> in which the submitted tasks run and complete (a
  rearrangement of the submitted list, chosen by the pool), one after the other on the
  shared world. The steps of two tasks are not interleaved in this model. A pool with
  no worker cannot be built: \<^verbatim>\<open>ThreadPoolExecutor\<close> raises \<^verbatim>\<open>ValueError\<close>, after the
  task list has been built and before any task is submitted. \<open>collect_errors\<close> is the
  loop over the completed futures: a result that is not \<^verbatim>\<open>None\<close> (a failure tuple,
  which is never empty) is appended to the errors.
\<close>

fun run_tasks ::
  "'v downloader \<Rightarrow> (date \<times> string) list \<Rightarrow> 'v world \<Rightarrow> failure option list \<times> 'v world" where
  "run_tasks self [] w = ([], w)"
| "run_tasks self ((date, instrument) # ts) w =
     (let (result, w1) = download_single_date_instrument self date instrument w;
          (results, w2) = run_tasks self ts w1
      in (result # results, w2))"

fun collect_errors :: "failure option list \<Rightarrow> failure list" where
  "collect_errors [] = []"
| "collect_errors (None # rs) = collect_errors rs"
| "collect_errors (Some f # rs) = f # collect_errors rs"

definition download_data ::
  "'v downloader \<Rightarrow> date \<Rightarrow> date \<Rightarrow> string list \<Rightarrow> int \<Rightarrow>
   ((date \<times> string) list \<Rightarrow> (date \<times> string) list) \<Rightarrow> 'v world \<Rightarrow>
   (exn + failure list) \<times> 'v world" where
  "download_data self start_date end_date instruments max_workers sched w =
     (let dates = date_loop start_date end_date [];
          tasks = make_tasks dates instruments
      in if max_workers \<le> 0
         then (Inl (ValueError ''max_workers must be greater than 0''), w)
         else let (results, w1) = run_tasks self (sched tasks) w
              in (Inr (collect_errors results), w1))"

section \<open>Notions of the specification and auxiliary definitions\<close>

text \<open>
  The classification rule in the words of the specification: a row whose symbol is the
  instrument name followed by \<^verbatim>\<open>-I\<close> is a futures row, a row whose symbol is the
  instrument name is a spot row, every other row is an options row.
\<close>

datatype leg = Fut | Spot | Opt

definition leg_of :: "string \<Rightarrow> 'v cell \<Rightarrow> leg" where
  "leg_of instrument symb =
     (if symb = Text (instrument @ ''-I'') then Fut
      else if symb = Text instrument then Spot
      else Opt)"

definition symbol_of :: "'v dataframe \<Rightarrow> 'v cell list \<Rightarrow> 'v cell" where
  "symbol_of df r = cell_at (columns df) r ''symbol''"

text \<open>A row of a frame with columns \<open>cols\<close>, restricted to the columns \<open>labels\<close>.\<close>

definition project_row :: "string list \<Rightarrow> string list \<Rightarrow> 'v cell list \<Rightarrow> 'v cell list" where
  "project_row cols labels r = map (cell_at cols r) labels"

text \<open>
  The file of a leg in the words of the specification: in the leg's directory, named by
  the lowercased instrument, the leg, and the day, month and year of the date, zero-padded
  to two, two and four digits, with the extension \<^verbatim>\<open>.csv\<close>.
\<close>

definition leg_file :: "path \<Rightarrow> string \<Rightarrow> string \<Rightarrow> date \<Rightarrow> path" where
  "leg_file dir instrument leg date =
     joinpath dir (lower instrument @ ''_'' @ leg @ ''_'' @ zfill 2 (str_nat (day date)) @ ''_'' @
       zfill 2 (str_nat (month date)) @ ''_'' @ zfill 4 (str_nat (year date)) @ ''.csv'')"

text \<open>
  The groups that are not empty (some row and some column), each with the file of its
  leg, in the order futures, spot, options.
\<close>

definition nonempty_groups ::
  "'v data_dict \<Rightarrow> directories \<Rightarrow> date \<Rightarrow> string \<Rightarrow> (path \<times> 'v dataframe) list" where
  "nonempty_groups g ds date instrument =
     filter (\<lambda>(p, df). rows df \<noteq> [] \<and> columns df \<noteq> [])
       [(leg_file (fut_dir ds) instrument ''fut'' date, futures g),
        (leg_file (spot_dir ds) instrument ''spot'' date, spot g),
        (leg_file (options_dir ds) instrument ''options'' date, options g)]"

text \<open>Writing a list of frames in order, stopping at the first error.\<close>

fun write_all :: "(path \<times> 'v dataframe) list \<Rightarrow> 'v world \<Rightarrow> (exn + unit) \<times> 'v world" where
  "write_all [] w = (Inr (), w)"
| "write_all ((p, df) # es) w =
     (case to_csv df p w of
        (Inl e, w1) \<Rightarrow> (Inl e, w1)
      | (Inr u, w1) \<Rightarrow> write_all es w1)"

text \<open>The files after all the writes of a list have succeeded.\<close>

fun written :: "(path \<times> 'v dataframe) list \<Rightarrow> (path \<rightharpoonup> 'v dataframe) \<Rightarrow> (path \<rightharpoonup> 'v dataframe)" where
  "written [] m = m"
| "written ((p, df) # es) m = written es (m(p \<mapsto> df))"

text \<open>
  The root, the path itself and every directory on the way to it; a path is unobstructed
  when none of these is a file.
\<close>

definition ancestors :: "path \<Rightarrow> path list" where
  "ancestors p = map (\<lambda>k. take k p) [0..<Suc (length p)]"

definition unobstructed :: "'v world \<Rightarrow> path \<Rightarrow> bool" where
  "unobstructed w p = list_all (\<lambda>q. \<not> is_file w q) (ancestors p)"

text \<open>The world right after the fetch call of a task has been made.\<close>

definition after_fetch :: "'v world \<Rightarrow> string \<Rightarrow> date \<Rightarrow> 'v world" where
  "after_fetch w instrument date = w\<lparr>calls := calls w @ [GetData (lower instrument) date]\<rparr>"

text \<open>The three leg directories of a task, in the order they are created.\<close>

definition leg_directories :: "'v downloader \<Rightarrow> date \<Rightarrow> string \<Rightarrow> path list" where
  "leg_directories self date instrument =
     [leg_directory self date instrument ''fut'', leg_directory self date instrument ''spot'',
      leg_directory self date instrument ''options'']"

text \<open>
  The order of the steps of a task, as a phase number for each call. In the
  specification's data flow the fetch comes first, then (after classification) the
  directories, then the writes; in the source the directories come first.
\<close>

fun spec_phase :: "'v call \<Rightarrow> nat" where
  "spec_phase (GetData c d) = 0"
| "spec_phase (Mkdir p) = 1"
| "spec_phase (ToCsv p df) = 2"

fun code_phase :: "'v call \<Rightarrow> nat" where
  "code_phase (Mkdir p) = 0"
| "code_phase (GetData c d) = 1"
| "code_phase (ToCsv p df) = 2"

text \<open>
  The weekend, the task list of a batch (every date of the range with every instrument),
  and the tasks of a list whose date is not on a weekend.
\<close>

definition weekend :: "date \<Rightarrow> bool" where
  "weekend d = (weekday d = 5 \<or> weekday d = 6)"

definition all_tasks :: "date \<Rightarrow> date \<Rightarrow> string list \<Rightarrow> (date \<times> string) list" where
  "all_tasks start_date end_date instruments =
     make_tasks (date_loop start_date end_date []) instruments"

definition weekday_tasks :: "(date \<times> string) list \<Rightarrow> (date \<times> string) list" where
  "weekday_tasks ts = filter (\<lambda>(d, i). \<not> weekend d) ts"

section \<open>Example inputs\<close>

text \<open>
  One day of rows for NIFTY: a spot row, a futures row, an option row, and a row whose
  symbol differs from the instrument name in case only. The frame has one column more
  than the nine base columns, and the symbol is its first column.
\<close>

definition example_frame :: "nat dataframe" where
  "example_frame =
     \<lparr>columns = [''symbol'', ''date'', ''time'', ''open'', ''high'', ''low'', ''close'',
                 ''oi'', ''volume'', ''exchange''],
      rows = [[Text ''NIFTY'', Other 1, Other 2, Other 3, Other 4, Other 5, Other 6,
                 Other 7, Other 8, Text ''NSE''],
              [Text ''NIFTY-I'', Other 1, Other 2, Other 3, Other 4, Other 5, Other 6,
                 Other 7, Other 8, Text ''NSE''],
              [Text ''NIFTY24JANCE'', Other 1, Other 2, Other 3, Other 4, Other 5, Other 6,
                 Other 7, Other 8, Text ''NSE''],
              [Text ''nifty'', Other 1, Other 2, Other 3, Other 4, Other 5, Other 6,
                 Other 7, Other 8, Text ''NSE'']]\<rparr>"

text \<open>
  Monday 2024-01-01 and Saturday 2024-01-06; a downloader whose collaborator has data for
  the code \<^verbatim>\<open>nifty\<close> only; and a world with an empty file system.
\<close>

definition monday :: date where
  "monday = ymd2ord 2024 1 1"

definition saturday :: date where
  "saturday = ymd2ord 2024 1 6"

definition example_downloader :: "nat downloader" where
  "example_downloader =
     \<lparr>base_path = [''work'', ''market_data''],
      ma_get_data = (\<lambda>code date. if code = ''nifty'' then Inr example_frame
                                  else Inl (RemoteError ''no data''))\<rparr>"

definition empty_world :: "nat world" where
  "empty_world = \<lparr>dirs = {}, files = Map.empty, calls = []\<rparr>"

text \<open>
  A downloader whose collaborator always raises, and one whose collaborator returns a
  frame that lacks base columns.
\<close>

definition failing_downloader :: "nat downloader" where
  "failing_downloader =
     \<lparr>base_path = [''work'', ''market_data''],
      ma_get_data = (\<lambda>code date. Inl (RemoteError ''no data''))\<rparr>"

definition malformed_downloader :: "nat downloader" where
  "malformed_downloader =
     \<lparr>base_path = [''work'', ''market_data''],
      ma_get_data = (\<lambda>code date. Inr \<lparr>columns = [''symbol'', ''close''],
                                        rows = [[Text ''NIFTY'', Other 6]]\<rparr>)\<rparr>"

text \<open>
  The three directories of NIFTY for January 2024; the world in which they exist, with
  their parents; and the same world with a directory in the place of the futures file of
  2024-01-01.
\<close>

definition nifty_dirs :: directories where
  "nifty_dirs =
     \<lparr>fut_dir = [''work'', ''market_data'', ''nifty_fut'', ''2024'', ''1''],
      spot_dir = [''work'', ''market_data'', ''nifty_spot'', ''2024'', ''1''],
      options_dir = [''work'', ''market_data'', ''nifty_options'', ''2024'', ''1'']\<rparr>"

definition ready_world :: "nat world" where
  "ready_world =
     \<lparr>dirs = {[''work''], [''work'', ''market_data''],
         [''work'', ''market_data'', ''nifty_fut''],
         [''work'', ''market_data'', ''nifty_fut'', ''2024''],
         [''work'', ''market_data'', ''nifty_fut'', ''2024'', ''1''],
         [''work'', ''market_data'', ''nifty_spot''],
         [''work'', ''market_data'', ''nifty_spot'', ''2024''],
         [''work'', ''market_data'', ''nifty_spot'', ''2024'', ''1''],
         [''work'', ''market_data'', ''nifty_options''],
         [''work'', ''market_data'', ''nifty_options'', ''2024''],
         [''work'', ''market_data'', ''nifty_options'', ''2024'', ''1'']},
      files = Map.empty,
      calls = []\<rparr>"

definition blocked_world :: "nat world" where
  "blocked_world =
     ready_world\<lparr>dirs := insert [''work'', ''market_data'', ''nifty_fut'', ''2024'', ''1'',
                                  ''nifty_fut_01_01_2024.csv''] (dirs ready_world)\<rparr>"

text \<open>
  The classification of the example frame for NIFTY, and a result in which only the
  spot group has a row.
\<close>

definition nifty_groups :: "nat data_dict" where
  "nifty_groups =
     \<lparr>futures = \<lparr>columns = base_columns,
         rows = [[Other 1, Other 2, Text ''NIFTY-I'', Other 3, Other 4, Other 5, Other 6,
                  Other 7, Other 8]]\<rparr>,
      spot = \<lparr>columns = spot_columns,
         rows = [[Other 1, Other 2, Text ''NIFTY'', Other 3, Other 4, Other 5, Other 6]]\<rparr>,
      options = \<lparr>columns = base_columns,
         rows = [[Other 1, Other 2, Text ''NIFTY24JANCE'', Other 3, Other 4, Other 5, Other 6,
                  Other 7, Other 8],
                 [Other 1, Other 2, Text ''nifty'', Other 3, Other 4, Other 5, Other 6,
                  Other 7, Other 8]]\<rparr>\<rparr>"

definition spot_only :: "nat data_dict" where
  "spot_only =
     \<lparr>futures = \<lparr>columns = base_columns, rows = []\<rparr>,
      spot = \<lparr>columns = spot_columns,
         rows = [[Other 1, Other 2, Text ''NIFTY'', Other 3, Other 4, Other 5, Other 6]]\<rparr>,
      options = \<lparr>columns = base_columns, rows = []\<rparr>\<rparr>"

section \<open>Properties\<close>

subsection \<open>Column selection and row projection\<close>

lemma getitem_cols_Inr:
  assumes "set labels \<subseteq> set (columns df)"
  shows "getitem_cols df labels =
     Inr \<lparr>columns = labels, rows = map (project_row (columns df) labels) (rows df)\<rparr>"
proof -
  from assms have "filter (\<lambda>c. c \<notin> set (columns df)) labels = []"
    by (auto simp: filter_empty_conv)
  then show ?thesis
    by (simp add: getitem_cols_def project_row_def[abs_def])
qed

lemma getitem_cols_InrD:
  assumes "getitem_cols df labels = Inr d"
  shows "set labels \<subseteq> set (columns df)"
proof -
  from assms have "filter (\<lambda>c. c \<notin> set (columns df)) labels = []"
    by (simp add: getitem_cols_def split: list.splits)
  then show ?thesis
    by (auto simp: filter_empty_conv)
qed

lemma nth_index_of: "c \<in> set labels \<Longrightarrow> labels ! index_of c labels = c"
  by (induction labels) auto

lemma index_of_less: "c \<in> set labels \<Longrightarrow> index_of c labels < length labels"
  by (induction labels) auto

lemma cell_at_project_row:
  "c \<in> set labels \<Longrightarrow> cell_at labels (project_row cols labels r) c = cell_at cols r c"
  by (simp add: cell_at_def[of labels] project_row_def nth_index_of index_of_less)

lemma spot_sub_base: "set spot_columns \<subseteq> set base_columns"
  by (simp add: spot_columns_def base_columns_def)

lemma symbol_base: "''symbol'' \<in> set base_columns"
  by (simp add: base_columns_def)

lemma project_project:
  assumes "set ls \<subseteq> set labels"
  shows "project_row labels ls (project_row cols labels r) = project_row cols ls r"
proof -
  have "cell_at labels (project_row cols labels r) c = cell_at cols r c" if "c \<in> set ls" for c
    using that assms by (auto intro: cell_at_project_row)
  then show ?thesis
    by (simp add: project_row_def[of _ ls])
qed

subsection \<open>Classification\<close>

lemma process_data_Inr:
  assumes "set base_columns \<subseteq> set (columns df)"
  shows "process_data df instrument = Inr
     \<lparr>futures = \<lparr>columns = base_columns,
                  rows = map (project_row (columns df) base_columns)
                    (filter (\<lambda>r. leg_of instrument (symbol_of df r) = Fut) (rows df))\<rparr>,
      spot = \<lparr>columns = spot_columns,
               rows = map (project_row (columns df) spot_columns)
                    (filter (\<lambda>r. leg_of instrument (symbol_of df r) = Spot) (rows df))\<rparr>,
      options = \<lparr>columns = base_columns,
                  rows = map (project_row (columns df) base_columns)
                    (filter (\<lambda>r. leg_of instrument (symbol_of df r) = Opt) (rows df))\<rparr>\<rparr>"
proof -
  let ?p9 = "project_row (columns df) base_columns :: 'a cell list \<Rightarrow> 'a cell list"
  let ?data = "\<lparr>columns = base_columns, rows = map ?p9 (rows df)\<rparr> :: 'a dataframe"
  let ?sy = "\<lambda>r. cell_at (columns df) r ''symbol''"
  have d: "getitem_cols df base_columns = Inr ?data"
    using assms by (rule getitem_cols_Inr)
  have sy: "symbol_eq ?data s (?p9 r) = (?sy r = Text s)" for s r
    by (simp add: symbol_eq_def cell_at_project_row symbol_base)
  have fut: "(leg_of instrument c = Fut) = (c = Text (instrument @ ''-I''))" for c :: "'a cell"
    by (simp add: leg_of_def)
  have spt: "(leg_of instrument c = Spot) = (c = Text instrument)" for c :: "'a cell"
    by (auto simp: leg_of_def)
  have opt: "(leg_of instrument c = Opt) = (c \<noteq> Text instrument \<and> c \<noteq> Text (instrument @ ''-I''))"
    for c :: "'a cell"
    by (auto simp: leg_of_def)
  have msk: "getitem_mask ?data (\<lambda>r. P (symbol_eq ?data s r) (symbol_eq ?data t r)) =
      \<lparr>columns = base_columns,
       rows = map ?p9 (filter (\<lambda>r. P (?sy r = Text s) (?sy r = Text t)) (rows df))\<rparr>"
    for P s t
    by (simp add: getitem_mask_def filter_map o_def sy)
  have m1: "getitem_mask ?data (symbol_eq ?data s) =
      \<lparr>columns = base_columns, rows = map ?p9 (filter (\<lambda>r. ?sy r = Text s) (rows df))\<rparr>" for s
    using msk[of "\<lambda>a b. a" s s] by simp
  have s: "getitem_cols \<lparr>columns = base_columns,
        rows = map ?p9 (filter (\<lambda>r. ?sy r = Text instrument) (rows df))\<rparr> spot_columns =
      Inr \<lparr>columns = spot_columns,
           rows = map (project_row (columns df) spot_columns)
             (filter (\<lambda>r. ?sy r = Text instrument) (rows df))\<rparr>"
    by (subst getitem_cols_Inr) (simp_all add: spot_sub_base o_def project_project)
  show ?thesis
    unfolding process_data_def d symbol_of_def
    using msk[of "\<lambda>a b. \<not> a \<and> \<not> b" instrument "instrument @ ''-I''"]
    by (simp add: Let_def s m1 fut spt opt)
qed

lemma process_data_InrD:
  assumes "process_data df instrument = Inr g"
  shows "set base_columns \<subseteq> set (columns df)"
  using assms
  by (auto simp: process_data_def split: sum.splits dest: getitem_cols_InrD)

lemma length_filter_legs:
  "length (filter (\<lambda>x. f x = Fut) xs) + length (filter (\<lambda>x. f x = Spot) xs) +
   length (filter (\<lambda>x. f x = Opt) xs) = length xs"
proof (induction xs)
  case Nil
  show ?case by simp
next
  case (Cons x xs)
  then show ?case by (cases "f x") simp_all
qed

lemma example_frame_columns: "set base_columns \<subseteq> set (columns example_frame)"
  by (simp add: base_columns_def example_frame_def)

lemma example_frame_distinct: "distinct (columns example_frame)"
  by (simp add: example_frame_def)

text \<open>
  C2. Whenever the frame has distinct labels and the nine base columns are among them
  (rows that carry the nine fields), classification returns, and it puts
  every input row in exactly one group: the futures group holds the rows whose symbol is
  the instrument name followed by \<^verbatim>\<open>-I\<close>, the spot group the rows whose symbol is
  exactly the instrument name (compared as texts, so case matters), the options group all
  the other rows; each group keeps the input order, and the three sizes add up to the
  number of input rows.
\<close>

theorem process_data_partition:
  assumes "set base_columns \<subseteq> set (columns df)" and "distinct (columns df)"
  shows "\<exists>g. process_data df instrument = Inr g \<and>
     rows (futures g) = map (project_row (columns df) base_columns)
        (filter (\<lambda>r. leg_of instrument (symbol_of df r) = Fut) (rows df)) \<and>
     rows (spot g) = map (project_row (columns df) spot_columns)
        (filter (\<lambda>r. leg_of instrument (symbol_of df r) = Spot) (rows df)) \<and>
     rows (options g) = map (project_row (columns df) base_columns)
        (filter (\<lambda>r. leg_of instrument (symbol_of df r) = Opt) (rows df)) \<and>
     length (rows (futures g)) + length (rows (spot g)) + length (rows (options g)) =
        length (rows df) \<and>
     (\<forall>r. (leg_of instrument (symbol_of df r) = Fut) =
             (symbol_of df r = Text (instrument @ ''-I'')) \<and>
          (leg_of instrument (symbol_of df r) = Spot) = (symbol_of df r = Text instrument))"
proof -
  have legs: "(leg_of instrument c = Fut) = (c = Text (instrument @ ''-I'')) \<and>
        (leg_of instrument c = Spot) = (c = Text instrument)" for c :: "'a cell"
    by (auto simp: leg_of_def)
  have sizes: "length (filter (\<lambda>r. leg_of instrument (symbol_of df r) = Fut) (rows df)) +
      length (filter (\<lambda>r. leg_of instrument (symbol_of df r) = Spot) (rows df)) +
      length (filter (\<lambda>r. leg_of instrument (symbol_of df r) = Opt) (rows df)) =
      length (rows df)"
    by (rule length_filter_legs)
  show ?thesis
    unfolding process_data_Inr[OF assms(1)]
    using legs sizes by simp
qed

theorem process_data_partition_witness:
  "set base_columns \<subseteq> set (columns example_frame) \<and> distinct (columns example_frame) \<and>
   (\<exists>g. process_data example_frame ''NIFTY'' = Inr g \<and>
      map (\<lambda>r. r ! 2) (rows (futures g)) = [Text ''NIFTY-I''] \<and>
      map (\<lambda>r. r ! 2) (rows (spot g)) = [Text ''NIFTY''] \<and>
      map (\<lambda>r. r ! 2) (rows (options g)) = [Text ''NIFTY24JANCE'', Text ''nifty''] \<and>
      length (rows (futures g)) + length (rows (spot g)) + length (rows (options g)) = 4)"
proof -
  from process_data_partition[OF example_frame_columns example_frame_distinct, of "''NIFTY''"]
  obtain g where g: "process_data example_frame ''NIFTY'' = Inr g"
    and f: "rows (futures g) = map (project_row (columns example_frame) base_columns)
        (filter (\<lambda>r. leg_of ''NIFTY'' (symbol_of example_frame r) = Fut) (rows example_frame))"
    and s: "rows (spot g) = map (project_row (columns example_frame) spot_columns)
        (filter (\<lambda>r. leg_of ''NIFTY'' (symbol_of example_frame r) = Spot) (rows example_frame))"
    and o: "rows (options g) = map (project_row (columns example_frame) base_columns)
        (filter (\<lambda>r. leg_of ''NIFTY'' (symbol_of example_frame r) = Opt) (rows example_frame))"
    and n: "length (rows (futures g)) + length (rows (spot g)) + length (rows (options g)) =
        length (rows example_frame)"
    by blast
  have "length (rows example_frame) = 4"
    by (simp add: example_frame_def)
  moreover have "map (\<lambda>r. r ! 2) (rows (futures g)) = [Text ''NIFTY-I'']"
    unfolding f
    by (simp add: example_frame_def leg_of_def symbol_of_def cell_at_def project_row_def
        base_columns_def)
  moreover have "map (\<lambda>r. r ! 2) (rows (spot g)) = [Text ''NIFTY'']"
    unfolding s
    by (simp add: example_frame_def leg_of_def symbol_of_def cell_at_def project_row_def
        spot_columns_def)
  moreover have "map (\<lambda>r. r ! 2) (rows (options g)) = [Text ''NIFTY24JANCE'', Text ''nifty'']"
    unfolding o
    by (simp add: example_frame_def leg_of_def symbol_of_def cell_at_def project_row_def
        base_columns_def)
  ultimately show ?thesis
    using g n example_frame_columns example_frame_distinct by simp
qed

text \<open>
  C5. In every classification result of a frame with distinct labels (rows that carry
  each field once) the spot group has exactly the seven columns date,
  time, symbol, open, high, low, close, so neither open interest nor volume, and each of
  its rows has seven cells; the futures and the options group have the nine base columns
  and rows of nine cells.
\<close>

theorem process_data_columns:
  assumes "process_data df instrument = Inr g" and "distinct (columns df)"
  shows "columns (spot g) = [''date'', ''time'', ''symbol'', ''open'', ''high'', ''low'', ''close''] \<and>
     ''oi'' \<notin> set (columns (spot g)) \<and> ''volume'' \<notin> set (columns (spot g)) \<and>
     list_all (\<lambda>r. length r = 7) (rows (spot g)) \<and>
     columns (futures g) =
       [''date'', ''time'', ''symbol'', ''open'', ''high'', ''low'', ''close'', ''oi'', ''volume''] \<and>
     columns (options g) =
       [''date'', ''time'', ''symbol'', ''open'', ''high'', ''low'', ''close'', ''oi'', ''volume''] \<and>
     list_all (\<lambda>r. length r = 9) (rows (futures g)) \<and>
     list_all (\<lambda>r. length r = 9) (rows (options g))"
proof -
  have len9: "length (project_row cols base_columns r) = 9" for cols and r :: "'a cell list"
    by (simp add: project_row_def base_columns_def)
  have len7: "length (project_row cols spot_columns r) = 7" for cols and r :: "'a cell list"
    by (simp add: project_row_def spot_columns_def)
  from assms(1) have "set base_columns \<subseteq> set (columns df)"
    by (rule process_data_InrD)
  from process_data_Inr[OF this, of instrument] assms(1)
  have g: "g = \<lparr>futures = \<lparr>columns = base_columns,
                  rows = map (project_row (columns df) base_columns)
                    (filter (\<lambda>r. leg_of instrument (symbol_of df r) = Fut) (rows df))\<rparr>,
      spot = \<lparr>columns = spot_columns,
               rows = map (project_row (columns df) spot_columns)
                    (filter (\<lambda>r. leg_of instrument (symbol_of df r) = Spot) (rows df))\<rparr>,
      options = \<lparr>columns = base_columns,
                  rows = map (project_row (columns df) base_columns)
                    (filter (\<lambda>r. leg_of instrument (symbol_of df r) = Opt) (rows df))\<rparr>\<rparr>"
    by simp
  have "columns (spot g) = spot_columns" "columns (futures g) = base_columns"
    "columns (options g) = base_columns"
    by (simp_all add: g)
  moreover have "list_all (\<lambda>r. length r = 7) (rows (spot g))"
    "list_all (\<lambda>r. length r = 9) (rows (futures g))"
    "list_all (\<lambda>r. length r = 9) (rows (options g))"
    by (simp_all add: g list_all_iff len9 len7)
  ultimately show ?thesis
    by (simp add: spot_columns_def base_columns_def)
qed

theorem process_data_columns_witness:
  "distinct (columns example_frame) \<and>
   (\<exists>g. process_data example_frame ''NIFTY'' = Inr g \<and>
     columns (spot g) = [''date'', ''time'', ''symbol'', ''open'', ''high'', ''low'', ''close''] \<and>
     rows (spot g) = [[Other 1, Other 2, Text ''NIFTY'', Other 3, Other 4, Other 5, Other 6]] \<and>
     length (columns (futures g)) = 9 \<and> length (columns (options g)) = 9)"
proof -
  from process_data_Inr[OF example_frame_columns, of "''NIFTY''"]
  obtain g where g: "process_data example_frame ''NIFTY'' = Inr g"
    and s: "rows (spot g) = map (project_row (columns example_frame) spot_columns)
        (filter (\<lambda>r. leg_of ''NIFTY'' (symbol_of example_frame r) = Spot) (rows example_frame))"
    by simp
  have "rows (spot g) = [[Other 1, Other 2, Text ''NIFTY'', Other 3, Other 4, Other 5, Other 6]]"
    unfolding s
    by (simp add: example_frame_def leg_of_def symbol_of_def cell_at_def project_row_def
        spot_columns_def)
  then show ?thesis
    using g process_data_columns[OF g example_frame_distinct] example_frame_distinct by simp
qed

subsection \<open>Directory creation\<close>

lemma is_dir_calls [simp]: "is_dir (w\<lparr>calls := c\<rparr>) p = is_dir w p"
  by (simp add: is_dir_def)

lemma is_file_calls [simp]: "is_file (w\<lparr>calls := c\<rparr>) p = is_file w p"
  by (simp add: is_file_def)

lemma mkdir_Inr:
  "mkdir p w = Inr w' \<Longrightarrow>
   is_dir w' p \<and> dirs w \<subseteq> dirs w' \<and> files w' = files w \<and> calls w' = calls w"
proof (induction p w arbitrary: w' rule: mkdir.induct)
  case (1 p w)
  show ?case
  proof (cases "is_dir w p \<or> is_file w p \<or> is_dir w (parent p) \<or> is_file w (parent p)")
    case True
    with "1.prems" show ?thesis
      by (auto simp: mkdir.simps[of p w] is_dir_def split: if_splits)
  next
    case False
    with "1.prems" obtain w1 where m: "mkdir (parent p) w = Inr w1"
      and w': "w' = w1\<lparr>dirs := insert p (dirs w1)\<rparr>"
      by (auto simp: mkdir.simps[of p w] split: sum.splits)
    from False m have "is_dir w1 (parent p) \<and> dirs w \<subseteq> dirs w1 \<and> files w1 = files w \<and> calls w1 = calls w"
      by (intro "1.IH") auto
    then show ?thesis
      by (auto simp: w' is_dir_def)
  qed
qed

lemma mkdir_existing: "is_dir w p \<Longrightarrow> mkdir p w = Inr w"
  by (simp add: mkdir.simps)

lemma path_mkdir_Inr:
  assumes "path_mkdir p w = (Inr u, w')"
  shows "is_dir w' p \<and> dirs w \<subseteq> dirs w' \<and> files w' = files w \<and> calls w' = calls w @ [Mkdir p]"
proof -
  from assms have "mkdir p (w\<lparr>calls := calls w @ [Mkdir p]\<rparr>) = Inr w'"
    by (auto simp: path_mkdir_def Let_def split: sum.splits)
  from mkdir_Inr[OF this] show ?thesis by simp
qed

lemma path_mkdir_Inl:
  assumes "path_mkdir p w = (Inl e, w')"
  shows "w' = w\<lparr>calls := calls w @ [Mkdir p]\<rparr>"
  using assms by (auto simp: path_mkdir_def Let_def split: sum.splits)

lemma path_mkdir_existing:
  "is_dir w p \<Longrightarrow> path_mkdir p w = (Inr (), w\<lparr>calls := calls w @ [Mkdir p]\<rparr>)"
  by (simp add: path_mkdir_def Let_def mkdir_existing)

lemma mkdir_each_Inr:
  "mkdir_each ps w = (Inr u, w') \<Longrightarrow>
   list_all (is_dir w') ps \<and> dirs w \<subseteq> dirs w' \<and> files w' = files w \<and>
   calls w' = calls w @ map Mkdir ps"
proof (induction ps arbitrary: w)
  case Nil
  then show ?case by simp
next
  case (Cons p ps)
  from Cons.prems obtain w1 where p: "path_mkdir p w = (Inr (), w1)"
    and r: "mkdir_each ps w1 = (Inr u, w')"
    by (auto split: prod.splits sum.splits)
  from path_mkdir_Inr[OF p] Cons.IH[OF r] show ?case
    by (auto simp: is_dir_def)
qed

lemma mkdir_each_Inl:
  "mkdir_each ps w = (Inl e, w') \<Longrightarrow>
   dirs w \<subseteq> dirs w' \<and> files w' = files w \<and>
   (\<exists>k. calls w' = calls w @ map Mkdir (take k ps))"
proof (induction ps arbitrary: w)
  case Nil
  then show ?case by simp
next
  case (Cons p ps)
  show ?case
  proof (cases "path_mkdir p w")
    case (Pair r w1)
    show ?thesis
    proof (cases r)
      case (Inl e')
      with Pair Cons.prems have "w' = w\<lparr>calls := calls w @ [Mkdir p]\<rparr>"
        by (auto dest: path_mkdir_Inl)
      then have "calls w' = calls w @ map Mkdir (take 1 (p # ps))" by simp
      with \<open>w' = _\<close> show ?thesis by (intro conjI exI[of _ 1]) auto
    next
      case (Inr u)
      with Pair Cons.prems have r: "mkdir_each ps w1 = (Inl e, w')" by simp
      from Cons.IH[OF r] obtain k where k: "calls w' = calls w1 @ map Mkdir (take k ps)"
        and d: "dirs w1 \<subseteq> dirs w'" "files w' = files w1" by blast
      from Pair Inr path_mkdir_Inr[of p w u w1]
      have p: "dirs w \<subseteq> dirs w1" "files w1 = files w" "calls w1 = calls w @ [Mkdir p]" by auto
      have "calls w' = calls w @ map Mkdir (take (Suc k) (p # ps))"
        by (simp add: k p)
      with d p show ?thesis by (intro conjI exI[of _ "Suc k"]) auto
    qed
  qed
qed

lemma mkdir_each_existing:
  "list_all (is_dir w) ps \<Longrightarrow> mkdir_each ps w = (Inr (), w\<lparr>calls := calls w @ map Mkdir ps\<rparr>)"
proof (induction ps arbitrary: w)
  case Nil
  then show ?case by simp
next
  case (Cons p ps)
  then show ?case
    by (simp add: path_mkdir_existing)
qed

lemma cds_Inr:
  assumes "create_directory_structure self date instrument w = (Inr ds, w')"
  shows "ds = \<lparr>fut_dir = leg_directory self date instrument ''fut'',
                spot_dir = leg_directory self date instrument ''spot'',
                options_dir = leg_directory self date instrument ''options''\<rparr>"
    and "is_dir w' (fut_dir ds)" and "is_dir w' (spot_dir ds)" and "is_dir w' (options_dir ds)"
    and "dirs w \<subseteq> dirs w'" and "files w' = files w"
    and "calls w' = calls w @ [Mkdir (fut_dir ds), Mkdir (spot_dir ds), Mkdir (options_dir ds)]"
proof -
  let ?ds = "\<lparr>fut_dir = leg_directory self date instrument ''fut'',
                spot_dir = leg_directory self date instrument ''spot'',
                options_dir = leg_directory self date instrument ''options''\<rparr>"
  from assms have ds: "ds = ?ds"
    and m: "mkdir_each [fut_dir ?ds, spot_dir ?ds, options_dir ?ds] w = (Inr (), w')"
    by (auto simp: create_directory_structure_def Let_def split: prod.splits sum.splits)
  show "ds = ?ds" by (rule ds)
  from mkdir_each_Inr[OF m]
  show "is_dir w' (fut_dir ds)" "is_dir w' (spot_dir ds)" "is_dir w' (options_dir ds)"
    "dirs w \<subseteq> dirs w'" "files w' = files w"
    "calls w' = calls w @ [Mkdir (fut_dir ds), Mkdir (spot_dir ds), Mkdir (options_dir ds)]"
    by (simp_all add: ds)
qed

lemma cds_Inl:
  assumes "create_directory_structure self date instrument w = (Inl e, w')"
  shows "dirs w \<subseteq> dirs w' \<and> files w' = files w \<and> (\<exists>ps. calls w' = calls w @ map Mkdir ps)"
proof -
  let ?ds = "\<lparr>fut_dir = leg_directory self date instrument ''fut'',
                spot_dir = leg_directory self date instrument ''spot'',
                options_dir = leg_directory self date instrument ''options''\<rparr>"
  from assms have "mkdir_each [fut_dir ?ds, spot_dir ?ds, options_dir ?ds] w = (Inl e, w')"
    by (auto simp: create_directory_structure_def Let_def split: prod.splits sum.splits)
  from mkdir_each_Inl[OF this] show ?thesis by blast
qed

lemma cds_existing:
  assumes "is_dir w (leg_directory self date instrument ''fut'')"
    and "is_dir w (leg_directory self date instrument ''spot'')"
    and "is_dir w (leg_directory self date instrument ''options'')"
  shows "create_directory_structure self date instrument w =
     (Inr \<lparr>fut_dir = leg_directory self date instrument ''fut'',
            spot_dir = leg_directory self date instrument ''spot'',
            options_dir = leg_directory self date instrument ''options''\<rparr>,
      w\<lparr>calls := calls w @ [Mkdir (leg_directory self date instrument ''fut''),
                            Mkdir (leg_directory self date instrument ''spot''),
                            Mkdir (leg_directory self date instrument ''options'')]\<rparr>)"
proof -
  let ?ps = "[leg_directory self date instrument ''fut'', leg_directory self date instrument ''spot'',
      leg_directory self date instrument ''options'']"
  have "mkdir_each ?ps w = (Inr (), w\<lparr>calls := calls w @ map Mkdir ?ps\<rparr>)"
    by (rule mkdir_each_existing) (simp add: assms)
  then show ?thesis
    by (simp add: create_directory_structure_def Let_def del: mkdir_each.simps)
qed

lemma set_ancestors: "set (ancestors p) = {take k p |k. k \<le> length p}"
  unfolding ancestors_def set_map set_upt by auto

lemma unobstructed_iff: "unobstructed w p = (\<forall>k\<le>length p. \<not> is_file w (take k p))"
  unfolding unobstructed_def list_all_iff set_ancestors by auto

lemma unobstructed_self: "unobstructed w p \<Longrightarrow> \<not> is_file w p"
  unfolding unobstructed_iff by (drule spec[of _ "length p"]) simp


lemma unobstructed_parent: "unobstructed w p \<Longrightarrow> unobstructed w (parent p)"
  unfolding unobstructed_iff parent_def
proof (intro allI impI)
  fix k
  assume a: "\<forall>k\<le>length p. \<not> is_file w (take k p)" and k: "k \<le> length (butlast p)"
  from k have "min k (length p - 1) = k" by simp
  then have "take k (butlast p) = take k p"
    by (simp add: butlast_conv_take)
  moreover from k have "k \<le> length p" by simp
  ultimately show "\<not> is_file w (take k (butlast p))"
    using a by simp
qed

lemma unobstructed_files: "files w' = files w \<Longrightarrow> unobstructed w' p = unobstructed w p"
  by (simp add: unobstructed_def is_file_def)

lemma unobstructed_calls: "unobstructed (w\<lparr>calls := c\<rparr>) p = unobstructed w p"
  by (simp add: unobstructed_def)

lemma mkdir_returns: "unobstructed w p \<Longrightarrow> \<exists>w'. mkdir p w = Inr w'"
proof (induction p w rule: mkdir.induct)
  case (1 p w)
  have nf: "\<not> is_file w p" "\<not> is_file w (parent p)"
    using unobstructed_self[OF "1.prems"] unobstructed_self[OF unobstructed_parent[OF "1.prems"]]
    by blast+
  show ?case
  proof (cases "is_dir w p")
    case True
    then show ?thesis
      by (subst mkdir.simps) simp
  next
    case nd: False
    show ?thesis
    proof (cases "is_dir w (parent p)")
      case True
      with nd nf show ?thesis
        by (subst mkdir.simps) simp
    next
      case False
      from nd nf(1) False nf(2) unobstructed_parent[OF "1.prems"]
      have "\<exists>w'. mkdir (parent p) w = Inr w'"
        by (rule "1.IH")
      then obtain w1 where "mkdir (parent p) w = Inr w1" by blast
      with nd nf False show ?thesis
        by (subst mkdir.simps) simp
    qed
  qed
qed


lemma path_mkdir_returns:
  assumes "unobstructed w p"
  shows "\<exists>w'. path_mkdir p w = (Inr (), w')"
proof -
  from assms have "unobstructed (w\<lparr>calls := calls w @ [Mkdir p]\<rparr>) p"
    by (simp add: unobstructed_calls)
  from mkdir_returns[OF this] obtain w' where "mkdir p (w\<lparr>calls := calls w @ [Mkdir p]\<rparr>) = Inr w'"
    by blast
  then show ?thesis
    by (simp add: path_mkdir_def Let_def)
qed

lemma mkdir_each_returns:
  "list_all (unobstructed w) ps \<Longrightarrow> \<exists>w'. mkdir_each ps w = (Inr (), w')"
proof (induction ps arbitrary: w)
  case Nil
  then show ?case by simp
next
  case (Cons p ps)
  from Cons.prems have "unobstructed w p" by simp
  from path_mkdir_returns[OF this] obtain w1 where p: "path_mkdir p w = (Inr (), w1)"
    by blast
  from path_mkdir_Inr[OF p] have "files w1 = files w" by simp
  then have "unobstructed w1 q = unobstructed w q" for q
    by (rule unobstructed_files)
  with Cons.prems have "list_all (unobstructed w1) ps"
    by (simp add: list_all_iff)
  from Cons.IH[OF this] obtain w' where "mkdir_each ps w1 = (Inr (), w')" by blast
  with p show ?case by simp
qed

lemma create_directory_structure_returns:
  assumes "list_all (unobstructed w) (leg_directories self date instrument)"
  shows "\<exists>ds w'. create_directory_structure self date instrument w = (Inr ds, w')"
proof -
  from mkdir_each_returns[OF assms] obtain w' where
    "mkdir_each (leg_directories self date instrument) w = (Inr (), w')" by blast
  then show ?thesis
    by (simp add: create_directory_structure_def leg_directories_def Let_def del: mkdir_each.simps)
qed

lemma cds_twice:
  assumes "create_directory_structure self date instrument w = (Inr ds, w1)"
  shows "fut_dir ds = joinpath (joinpath (joinpath (base_path self) (lower instrument @ ''_fut''))
            (str_nat (year date))) (str_nat (month date)) \<and>
     spot_dir ds = joinpath (joinpath (joinpath (base_path self) (lower instrument @ ''_spot''))
            (str_nat (year date))) (str_nat (month date)) \<and>
     options_dir ds = joinpath (joinpath (joinpath (base_path self) (lower instrument @ ''_options''))
            (str_nat (year date))) (str_nat (month date)) \<and>
     (\<exists>w2. create_directory_structure self date instrument w1 = (Inr ds, w2) \<and>
        dirs w2 = dirs w1 \<and> files w2 = files w1)"
proof -
  note f = cds_Inr[OF assms]
  have paths: "fut_dir ds = leg_directory self date instrument ''fut''"
    "spot_dir ds = leg_directory self date instrument ''spot''"
    "options_dir ds = leg_directory self date instrument ''options''"
    by (simp_all add: f(1))
  from f(2-4) have "create_directory_structure self date instrument w1 =
     (Inr ds, w1\<lparr>calls := calls w1 @ [Mkdir (leg_directory self date instrument ''fut''),
                            Mkdir (leg_directory self date instrument ''spot''),
                            Mkdir (leg_directory self date instrument ''options'')]\<rparr>)"
    unfolding paths by (simp add: cds_existing f(1))
  then have "\<exists>w2. create_directory_structure self date instrument w1 = (Inr ds, w2) \<and>
        dirs w2 = dirs w1 \<and> files w2 = files w1"
    by simp
  then show ?thesis
    using paths by (simp add: leg_directory_def)
qed

text \<open>
  C7. The three directories are a function of the base path, the date and the instrument
  alone: base path / (lowercased instrument, an underscore, the leg) / year / month, for
  the legs fut, spot and options. A call returns them without an error whenever no file
  lies at one of these paths or on the way to it. After a call that returned, a second
  call with the same arguments returns the same three paths without an error and leaves
  the directories and the files as they are.
\<close>

theorem create_directory_structure_idempotent:
  "(list_all (unobstructed w) (leg_directories self date instrument) \<longrightarrow>
      (\<exists>ds w1. create_directory_structure self date instrument w = (Inr ds, w1))) \<and>
   (\<forall>ds w1. create_directory_structure self date instrument w = (Inr ds, w1) \<longrightarrow>
      fut_dir ds = joinpath (joinpath (joinpath (base_path self) (lower instrument @ ''_fut''))
            (str_nat (year date))) (str_nat (month date)) \<and>
      spot_dir ds = joinpath (joinpath (joinpath (base_path self) (lower instrument @ ''_spot''))
            (str_nat (year date))) (str_nat (month date)) \<and>
      options_dir ds = joinpath (joinpath (joinpath (base_path self) (lower instrument @ ''_options''))
            (str_nat (year date))) (str_nat (month date)) \<and>
      (\<exists>w2. create_directory_structure self date instrument w1 = (Inr ds, w2) \<and>
         dirs w2 = dirs w1 \<and> files w2 = files w1))"
  using create_directory_structure_returns[of w self date instrument]
    cds_twice[of self date instrument w]
  by blast

subsection \<open>Writing the groups\<close>

lemma to_csv_cases:
  assumes "to_csv df p w = (r, w')"
  shows "dirs w' = dirs w \<and> calls w' = calls w @ [ToCsv p df] \<and>
     (case r of Inr u \<Rightarrow> files w' = (files w)(p \<mapsto> df) | Inl e \<Rightarrow> files w' = files w)"
  using assms by (auto simp: to_csv_def Let_def split: if_splits)

lemma save_data_write_all:
  "save_data g ds date instrument w = write_all (nonempty_groups g ds date instrument) w"
proof -
  have n: "joinpath dir (csv_name instrument leg date) = leg_file dir instrument leg date" for dir leg
    by (simp add: csv_name_def leg_file_def strftime_d_m_Y_def)
  show ?thesis
    by (simp add: save_data_def save_group_def n nonempty_groups_def empty_df_def
        split: prod.splits sum.splits)
qed

lemma write_all_prefix:
  "write_all es w = (r, w') \<Longrightarrow>
   dirs w' = dirs w \<and>
   (\<exists>k\<le>length es. calls w' = calls w @ map (\<lambda>(p, df). ToCsv p df) (take k es) \<and>
      (\<forall>p. p \<notin> fst ` set (take k es) \<longrightarrow> files w' p = files w p) \<and>
      (\<forall>e. r = Inl e \<longrightarrow> 0 < k))"
proof (induction es arbitrary: w)
  case Nil
  then show ?case by auto
next
  case (Cons a es)
  obtain p df where a: "a = (p, df)" by (cases a)
  obtain r1 w1 where t: "to_csv df p w = (r1, w1)" by (cases "to_csv df p w")
  note c = to_csv_cases[OF t]
  show ?case
  proof (cases r1)
    case (Inl e)
    with Cons.prems a t have "r = Inl e" "w' = w1" by simp_all
    with c Inl have "dirs w' = dirs w" "calls w' = calls w @ map (\<lambda>(p, df). ToCsv p df) (take 1 (a # es))"
      "\<forall>q. q \<notin> fst ` set (take 1 (a # es)) \<longrightarrow> files w' q = files w q"
      by (simp_all add: a)
    then show ?thesis
      by (intro conjI exI[of _ 1]) simp_all
  next
    case (Inr u)
    with Cons.prems a t have "write_all es w1 = (r, w')" by simp
    from Cons.IH[OF this] obtain k where k: "k \<le> length es"
      "calls w' = calls w1 @ map (\<lambda>(p, df). ToCsv p df) (take k es)"
      "\<forall>q. q \<notin> fst ` set (take k es) \<longrightarrow> files w' q = files w1 q"
      and d: "dirs w' = dirs w1" by blast
    from c Inr have c': "dirs w1 = dirs w" "calls w1 = calls w @ [ToCsv p df]"
      "files w1 = (files w)(p \<mapsto> df)" by simp_all
    have "calls w' = calls w @ map (\<lambda>(p, df). ToCsv p df) (take (Suc k) (a # es))"
      by (simp add: k c' a)
    moreover have "\<forall>q. q \<notin> fst ` set (take (Suc k) (a # es)) \<longrightarrow> files w' q = files w q"
      using k(3) by (simp add: c' a)
    ultimately show ?thesis
      using k(1) d c'(1) by (intro conjI exI[of _ "Suc k"]) simp_all
  qed
qed

lemma write_all_Inr:
  "write_all es w = (Inr u, w') \<Longrightarrow>
   calls w' = calls w @ map (\<lambda>(p, df). ToCsv p df) es \<and> files w' = written es (files w)"
proof (induction es arbitrary: w)
  case Nil
  then show ?case by simp
next
  case (Cons a es)
  obtain p df where a: "a = (p, df)" by (cases a)
  from Cons.prems a obtain w1 where t: "to_csv df p w = (Inr (), w1)"
    and r: "write_all es w1 = (Inr u, w')"
    by (auto split: prod.splits sum.splits)
  from to_csv_cases[OF t] have c: "calls w1 = calls w @ [ToCsv p df]"
    "files w1 = (files w)(p \<mapsto> df)" by simp_all
  from Cons.IH[OF r] have "calls w' = calls w1 @ map (\<lambda>(p, df). ToCsv p df) es"
    "files w' = written es (files w1)" by simp_all
  then show ?case
    unfolding c a by simp_all
qed

text \<open>
  C6. \<open>save_data\<close> attempts a write only for groups that are not empty, in the order
  futures, spot, options, each to the file of its leg: in the leg's directory, named
  lowercased instrument, leg and zero-padded day, month and year. It never touches a
  directory, changes no other file, and an error can only come from an attempted write.
  When it returns normally every non-empty group has been written; when all groups are
  empty it returns normally and changes nothing.
\<close>

theorem save_data_writes_nonempty_groups:
  assumes "save_data g ds date instrument w = (r, w')"
  shows "dirs w' = dirs w \<and>
     (\<exists>k\<le>length (nonempty_groups g ds date instrument).
        calls w' = calls w @
          map (\<lambda>(p, df). ToCsv p df) (take k (nonempty_groups g ds date instrument)) \<and>
        (\<forall>p. p \<notin> fst ` set (take k (nonempty_groups g ds date instrument)) \<longrightarrow>
           files w' p = files w p) \<and>
        (\<forall>e. r = Inl e \<longrightarrow> 0 < k)) \<and>
     (r = Inr () \<longrightarrow>
        calls w' = calls w @ map (\<lambda>(p, df). ToCsv p df) (nonempty_groups g ds date instrument) \<and>
        files w' = written (nonempty_groups g ds date instrument) (files w)) \<and>
     (nonempty_groups g ds date instrument = [] \<longrightarrow> r = Inr () \<and> w' = w)"
proof -
  from assms have wa: "write_all (nonempty_groups g ds date instrument) w = (r, w')"
    by (simp add: save_data_write_all)
  have "calls w' = calls w @ map (\<lambda>(p, df). ToCsv p df) (nonempty_groups g ds date instrument) \<and>
        files w' = written (nonempty_groups g ds date instrument) (files w)" if "r = Inr ()"
    using wa that by (auto dest: write_all_Inr)
  moreover have "r = Inr () \<and> w' = w" if "nonempty_groups g ds date instrument = []"
    using wa that by simp
  ultimately show ?thesis
    using write_all_prefix[OF wa] by blast
qed

subsection \<open>One task\<close>

lemma try_block_cases:
  assumes "try_block self date instrument w = (r, w')"
  obtains
    (weekend) "weekday date \<in> {5, 6}" "r = Inr ()" "w' = w"
  | (mkdir_failed) e where "weekday date \<notin> {5, 6}"
      "create_directory_structure self date instrument w = (Inl e, w')" "r = Inl e"
  | (fetch_failed) e ds w1 where "weekday date \<notin> {5, 6}"
      "create_directory_structure self date instrument w = (Inr ds, w1)"
      "ma_get_data self (lower instrument) date = Inl e"
      "r = Inl e" "w' = after_fetch w1 instrument date"
  | (classify_failed) e ds w1 raw where "weekday date \<notin> {5, 6}"
      "create_directory_structure self date instrument w = (Inr ds, w1)"
      "ma_get_data self (lower instrument) date = Inr raw"
      "process_data raw instrument = Inl e"
      "r = Inl e" "w' = after_fetch w1 instrument date"
  | (saved) ds w1 raw g where "weekday date \<notin> {5, 6}"
      "create_directory_structure self date instrument w = (Inr ds, w1)"
      "ma_get_data self (lower instrument) date = Inr raw"
      "process_data raw instrument = Inr g"
      "save_data g ds date instrument (after_fetch w1 instrument date) = (r, w')"
proof (cases "weekday date \<in> {5, 6}")
  case True
  with assms weekend show ?thesis by (simp add: try_block_def)
next
  case wd: False
  obtain c w1 where c: "create_directory_structure self date instrument w = (c, w1)"
    by (cases "create_directory_structure self date instrument w")
  show ?thesis
  proof (cases c)
    case (Inl e)
    with assms wd c mkdir_failed show ?thesis by (simp add: try_block_def)
  next
    case ds: (Inr ds)
    show ?thesis
    proof (cases "ma_get_data self (lower instrument) date")
      case (Inl e)
      with assms wd c ds fetch_failed show ?thesis
        by (simp add: try_block_def after_fetch_def)
    next
      case raw: (Inr raw)
      show ?thesis
      proof (cases "process_data raw instrument")
        case (Inl e)
        with assms wd c ds raw classify_failed show ?thesis
          by (simp add: try_block_def after_fetch_def)
      next
        case (Inr g)
        with assms wd c ds raw saved show ?thesis
          by (simp add: try_block_def after_fetch_def)
      qed
    qed
  qed
qed

lemma nonempty_groups_frames:
  "(p, df) \<in> set (nonempty_groups g ds date instrument) \<Longrightarrow>
   df = futures g \<or> df = spot g \<or> df = options g"
  by (auto simp: nonempty_groups_def split: if_splits)

lemma save_data_calls:
  assumes "save_data g ds date instrument w = (r, w')"
  shows "\<exists>ws. calls w' = calls w @ map (\<lambda>(p, df). ToCsv p df) ws \<and>
     set ws \<subseteq> set (nonempty_groups g ds date instrument)"
proof -
  from assms have "write_all (nonempty_groups g ds date instrument) w = (r, w')"
    by (simp add: save_data_write_all)
  from write_all_prefix[OF this] obtain k where
    "calls w' = calls w @ map (\<lambda>(p, df). ToCsv p df) (take k (nonempty_groups g ds date instrument))"
    by blast
  moreover have "set (take k (nonempty_groups g ds date instrument)) \<subseteq>
      set (nonempty_groups g ds date instrument)"
    by (rule set_take_subset)
  ultimately show ?thesis by blast
qed

lemma try_block_calls:
  assumes "try_block self date instrument w = (r, w')"
  shows "\<exists>ps fs ws. calls w' = calls w @ map Mkdir ps @ fs @ map (\<lambda>(p, df). ToCsv p df) ws \<and>
     (fs = [] \<or> fs = [GetData (lower instrument) date] \<and>
        ps = leg_directories self date instrument) \<and>
     (ws = [] \<or> fs \<noteq> [] \<and> (\<exists>raw g ds. ma_get_data self (lower instrument) date = Inr raw \<and>
        process_data raw instrument = Inr g \<and>
        set ws \<subseteq> set (nonempty_groups g ds date instrument))) \<and>
     (r = Inr () \<and> weekday date \<notin> {5, 6} \<longrightarrow> fs \<noteq> [])"
  using assms
proof (cases rule: try_block_cases)
  case weekend
  then show ?thesis
    by (intro exI[of _ "[]"]) simp
next
  case (mkdir_failed e)
  from cds_Inl[OF mkdir_failed(2)] obtain ps where "calls w' = calls w @ map Mkdir ps"
    by blast
  with mkdir_failed(3) show ?thesis
    by (intro exI[of _ ps] exI[of _ "[]"]) simp
next
  case (fetch_failed e ds w1)
  note c = cds_Inr[OF fetch_failed(2)]
  have "calls w' = calls w @ map Mkdir (leg_directories self date instrument) @
      [GetData (lower instrument) date] @ map (\<lambda>(p, df). ToCsv p df) []"
    by (simp add: fetch_failed(5) after_fetch_def c(7) c(1) leg_directories_def)
  then show ?thesis
    by (intro exI[of _ "leg_directories self date instrument"]
        exI[of _ "[GetData (lower instrument) date]"] exI[of _ "[]"]) simp
next
  case (classify_failed e ds w1 raw)
  note c = cds_Inr[OF classify_failed(2)]
  have "calls w' = calls w @ map Mkdir (leg_directories self date instrument) @
      [GetData (lower instrument) date] @ map (\<lambda>(p, df). ToCsv p df) []"
    by (simp add: classify_failed(6) after_fetch_def c(7) c(1) leg_directories_def)
  then show ?thesis
    by (intro exI[of _ "leg_directories self date instrument"]
        exI[of _ "[GetData (lower instrument) date]"] exI[of _ "[]"]) simp
next
  case (saved ds w1 raw g)
  note c = cds_Inr[OF saved(2)]
  from save_data_calls[OF saved(5)] obtain ws where
    ws: "calls w' = calls (after_fetch w1 instrument date) @ map (\<lambda>(p, df). ToCsv p df) ws"
    "set ws \<subseteq> set (nonempty_groups g ds date instrument)"
    by blast
  have "calls w' = calls w @ map Mkdir (leg_directories self date instrument) @
      [GetData (lower instrument) date] @ map (\<lambda>(p, df). ToCsv p df) ws"
    by (simp add: ws(1) after_fetch_def c(7) c(1) leg_directories_def)
  with ws(2) saved(3,4) show ?thesis
    by (intro exI[of _ "leg_directories self date instrument"]
        exI[of _ "[GetData (lower instrument) date]"] exI[of _ ws]) auto
qed

lemma download_single_try_block:
  assumes "download_single_date_instrument self date instrument w = (r, w')"
  obtains rb where "try_block self date instrument w = (rb, w')"
    and "r = (case rb of Inl e \<Rightarrow> Some (date, instrument, str_exn e) | Inr u \<Rightarrow> None)"
proof -
  obtain rb w1 where t: "try_block self date instrument w = (rb, w1)"
    by (cases "try_block self date instrument w")
  with assms have "w1 = w'"
    and "r = (case rb of Inl e \<Rightarrow> Some (date, instrument, str_exn e) | Inr u \<Rightarrow> None)"
    by (auto simp: download_single_date_instrument_def split: sum.splits)
  with t that show ?thesis by blast
qed

lemma sorted_mkdirs: "sorted (map (code_phase \<circ> Mkdir) ps)"
  by (induction ps) auto

lemma sorted_writes: "sorted (map (code_phase \<circ> (\<lambda>(p, df). ToCsv p df)) ws)"
  by (induction ws) auto

lemma sorted_phases:
  "fs = [] \<or> fs = [GetData c d] \<Longrightarrow>
   sorted (map code_phase (map Mkdir ps @ fs @ map (\<lambda>(p, df). ToCsv p df) ws))"
  by (auto simp: sorted_append sorted_mkdirs sorted_writes)

text \<open>
  C4, as the code has it. The calls a task makes are in the order: creation of the leg
  directories, then the remote fetch, then the file writes. The fetch is called only
  after all three directories have been created, and every frame written is a group of
  the classification of the fetched rows, so classification lies between the fetch and
  the writes.
\<close>

theorem task_call_order:
  assumes "download_single_date_instrument self date instrument w = (r, w')"
  shows "\<exists>cs. calls w' = calls w @ cs \<and> sorted (map code_phase cs) \<and>
     (\<forall>c d. GetData c d \<in> set cs \<longrightarrow>
        list_all (\<lambda>p. Mkdir p \<in> set cs) (leg_directories self date instrument)) \<and>
     (\<forall>p df. ToCsv p df \<in> set cs \<longrightarrow>
        GetData (lower instrument) date \<in> set cs \<and>
        (\<exists>raw g. ma_get_data self (lower instrument) date = Inr raw \<and>
           process_data raw instrument = Inr g \<and>
           (df = futures g \<or> df = spot g \<or> df = options g)))"
proof -
  from assms obtain rb where t: "try_block self date instrument w = (rb, w')"
    by (rule download_single_try_block)
  from try_block_calls[OF t] obtain ps fs ws where
    cs: "calls w' = calls w @ map Mkdir ps @ fs @ map (\<lambda>(p, df). ToCsv p df) ws"
    and fs: "fs = [] \<or> fs = [GetData (lower instrument) date] \<and>
        ps = leg_directories self date instrument"
    and ws: "ws = [] \<or> fs \<noteq> [] \<and> (\<exists>raw g ds. ma_get_data self (lower instrument) date = Inr raw \<and>
        process_data raw instrument = Inr g \<and>
        set ws \<subseteq> set (nonempty_groups g ds date instrument))"
    by blast
  let ?cs = "map Mkdir ps @ fs @ map (\<lambda>(p, df). ToCsv p df) ws"
  have 1: "sorted (map code_phase ?cs)"
    using fs by (intro sorted_phases) auto
  have 2: "list_all (\<lambda>p. Mkdir p \<in> set ?cs) (leg_directories self date instrument)"
    if "GetData c d \<in> set ?cs" for c d
    using that fs by (auto simp: list_all_iff)
  have 3: "GetData (lower instrument) date \<in> set ?cs \<and>
        (\<exists>raw g. ma_get_data self (lower instrument) date = Inr raw \<and>
           process_data raw instrument = Inr g \<and>
           (df = futures g \<or> df = spot g \<or> df = options g))"
    if "ToCsv p df \<in> set ?cs" for p df
  proof -
    from that fs have in_ws: "(p, df) \<in> set ws" by auto
    with ws fs obtain raw g ds where "fs = [GetData (lower instrument) date]"
      "ma_get_data self (lower instrument) date = Inr raw"
      "process_data raw instrument = Inr g"
      "set ws \<subseteq> set (nonempty_groups g ds date instrument)"
      by auto
    with in_ws nonempty_groups_frames[of p df g ds date instrument] show ?thesis
      by auto
  qed
  from cs 1 2 3 show ?thesis
    by (intro exI[of _ ?cs]) blast
qed

text \<open>
  C10. When a task on a weekday has called the remote fetch and the fetch raises, the
  task returns the failure record of that exception, the three leg directories exist
  afterwards (their creation precedes the fetch in the calls of the task), and no file
  has been written. Unless all three directories were there before, the directory tree
  has grown.
\<close>

theorem fetch_failure_leaves_directories:
  assumes "weekday date \<notin> {5, 6}"
    and "ma_get_data self (lower instrument) date = Inl e"
    and "download_single_date_instrument self date instrument w = (r, w')"
    and "GetData (lower instrument) date \<in> set (drop (length (calls w)) (calls w'))"
  shows "r = Some (date, instrument, str_exn e) \<and>
     is_dir w' (leg_directory self date instrument ''fut'') \<and>
     is_dir w' (leg_directory self date instrument ''spot'') \<and>
     is_dir w' (leg_directory self date instrument ''options'') \<and>
     dirs w \<subseteq> dirs w' \<and> files w' = files w \<and>
     calls w' = calls w @ [Mkdir (leg_directory self date instrument ''fut''),
                           Mkdir (leg_directory self date instrument ''spot''),
                           Mkdir (leg_directory self date instrument ''options''),
                           GetData (lower instrument) date] \<and>
     (list_all (is_dir w) (leg_directories self date instrument) \<or> dirs w \<subset> dirs w')"
proof -
  from assms(3) obtain rb where t: "try_block self date instrument w = (rb, w')"
    and r: "r = (case rb of Inl e \<Rightarrow> Some (date, instrument, str_exn e) | Inr u \<Rightarrow> None)"
    by (rule download_single_try_block)
  from t show ?thesis
  proof (cases rule: try_block_cases)
    case weekend
    with assms(1) show ?thesis by simp
  next
    case (mkdir_failed e')
    from cds_Inl[OF mkdir_failed(2)] obtain ps where "calls w' = calls w @ map Mkdir ps"
      by blast
    with assms(4) show ?thesis by auto
  next
    case (fetch_failed e' ds w1)
    note c = cds_Inr[OF fetch_failed(2)]
    from fetch_failed(3) assms(2) have "e' = e" by simp
    with r fetch_failed(4) have "r = Some (date, instrument, str_exn e)" by simp
    moreover have "is_dir w' (leg_directory self date instrument ''fut'')"
      "is_dir w' (leg_directory self date instrument ''spot'')"
      "is_dir w' (leg_directory self date instrument ''options'')"
      using c(2-4) by (simp_all add: c(1) fetch_failed(5) after_fetch_def)
    moreover have "dirs w \<subseteq> dirs w'" "files w' = files w"
      using c(5,6) by (simp_all add: fetch_failed(5) after_fetch_def)
    moreover have "calls w' = calls w @ [Mkdir (leg_directory self date instrument ''fut''),
                           Mkdir (leg_directory self date instrument ''spot''),
                           Mkdir (leg_directory self date instrument ''options''),
                           GetData (lower instrument) date]"
      by (simp add: c(7) c(1) fetch_failed(5) after_fetch_def)
    moreover have "list_all (is_dir w) (leg_directories self date instrument) \<or> dirs w \<subset> dirs w'"
    proof (cases "list_all (is_dir w) (leg_directories self date instrument)")
      case True
      then show ?thesis by simp
    next
      case False
      then obtain p where "p \<in> set (leg_directories self date instrument)" "\<not> is_dir w p"
        by (auto simp: list_all_iff)
      moreover from this(1) have "is_dir w' p"
        using \<open>is_dir w' (leg_directory self date instrument ''fut'')\<close>
          \<open>is_dir w' (leg_directory self date instrument ''spot'')\<close>
          \<open>is_dir w' (leg_directory self date instrument ''options'')\<close>
        by (auto simp: leg_directories_def)
      ultimately have "p \<in> dirs w'" "p \<notin> dirs w"
        by (auto simp: is_dir_def)
      with \<open>dirs w \<subseteq> dirs w'\<close> show ?thesis by blast
    qed
    ultimately show ?thesis by simp
  next
    case (classify_failed e' ds w1 raw)
    with assms(2) show ?thesis by simp
  next
    case (saved ds w1 raw g)
    with assms(2) show ?thesis by simp
  qed
qed

text \<open>
  C9. A task calls the remote fetch with the lowercased instrument and its own date, and
  with nothing else; a weekday task that returns without failure has called it. Every
  frame a task writes is a group of the fetched rows selected by comparing the symbol
  with the instrument name as given (not lowercased) and with that name followed by
  \<^verbatim>\<open>-I\<close>.
\<close>

theorem fetch_lowercase_classify_original:
  assumes "download_single_date_instrument self date instrument w = (r, w')"
  shows "\<exists>cs. calls w' = calls w @ cs \<and>
     (\<forall>c d. GetData c d \<in> set cs \<longrightarrow> c = lower instrument \<and> d = date) \<and>
     (r = None \<and> weekday date \<notin> {5, 6} \<longrightarrow> GetData (lower instrument) date \<in> set cs) \<and>
     (\<forall>p df. ToCsv p df \<in> set cs \<longrightarrow>
        (\<exists>raw. ma_get_data self (lower instrument) date = Inr raw \<and>
           (df = \<lparr>columns = base_columns,
                  rows = map (project_row (columns raw) base_columns)
                    (filter (\<lambda>r. symbol_of raw r = Text (instrument @ ''-I'')) (rows raw))\<rparr> \<or>
            df = \<lparr>columns = spot_columns,
                  rows = map (project_row (columns raw) spot_columns)
                    (filter (\<lambda>r. symbol_of raw r = Text instrument) (rows raw))\<rparr> \<or>
            df = \<lparr>columns = base_columns,
                  rows = map (project_row (columns raw) base_columns)
                    (filter (\<lambda>r. symbol_of raw r \<noteq> Text instrument \<and>
                                 symbol_of raw r \<noteq> Text (instrument @ ''-I'')) (rows raw))\<rparr>)))"
proof -
  from assms obtain rb where t: "try_block self date instrument w = (rb, w')"
    and r: "r = (case rb of Inl e \<Rightarrow> Some (date, instrument, str_exn e) | Inr u \<Rightarrow> None)"
    by (rule download_single_try_block)
  from try_block_calls[OF t] obtain ps fs ws where
    cs: "calls w' = calls w @ map Mkdir ps @ fs @ map (\<lambda>(p, df). ToCsv p df) ws"
    and fs: "fs = [] \<or> fs = [GetData (lower instrument) date] \<and>
        ps = leg_directories self date instrument"
    and ws: "ws = [] \<or> fs \<noteq> [] \<and> (\<exists>raw g ds. ma_get_data self (lower instrument) date = Inr raw \<and>
        process_data raw instrument = Inr g \<and>
        set ws \<subseteq> set (nonempty_groups g ds date instrument))"
    and ok: "rb = Inr () \<and> weekday date \<notin> {5, 6} \<longrightarrow> fs \<noteq> []"
    by blast
  let ?cs = "map Mkdir ps @ fs @ map (\<lambda>(p, df). ToCsv p df) ws"
  have legs: "(leg_of instrument c = Fut) = (c = Text (instrument @ ''-I''))"
    "(leg_of instrument c = Spot) = (c = Text instrument)"
    "(leg_of instrument c = Opt) = (c \<noteq> Text instrument \<and> c \<noteq> Text (instrument @ ''-I''))"
    for c :: "'a cell"
    by (auto simp: leg_of_def)
  have 1: "c = lower instrument \<and> d = date" if "GetData c d \<in> set ?cs" for c d
    using that fs by auto
  have 2: "GetData (lower instrument) date \<in> set ?cs" if "r = None \<and> weekday date \<notin> {5, 6}"
  proof -
    from that r have "rb = Inr ()" by (cases rb) simp_all
    with that ok fs show ?thesis by auto
  qed
  have 3: "\<exists>raw. ma_get_data self (lower instrument) date = Inr raw \<and>
           (df = \<lparr>columns = base_columns,
                  rows = map (project_row (columns raw) base_columns)
                    (filter (\<lambda>r. symbol_of raw r = Text (instrument @ ''-I'')) (rows raw))\<rparr> \<or>
            df = \<lparr>columns = spot_columns,
                  rows = map (project_row (columns raw) spot_columns)
                    (filter (\<lambda>r. symbol_of raw r = Text instrument) (rows raw))\<rparr> \<or>
            df = \<lparr>columns = base_columns,
                  rows = map (project_row (columns raw) base_columns)
                    (filter (\<lambda>r. symbol_of raw r \<noteq> Text instrument \<and>
                                 symbol_of raw r \<noteq> Text (instrument @ ''-I'')) (rows raw))\<rparr>)"
    if "ToCsv p df \<in> set ?cs" for p df
  proof -
    from that fs have in_ws: "(p, df) \<in> set ws" by auto
    with ws obtain raw g ds where raw: "ma_get_data self (lower instrument) date = Inr raw"
      and g: "process_data raw instrument = Inr g"
      and sub: "set ws \<subseteq> set (nonempty_groups g ds date instrument)"
      by auto
    from in_ws sub have df: "df = futures g \<or> df = spot g \<or> df = options g"
      by (auto dest: nonempty_groups_frames)
    from g have "set base_columns \<subseteq> set (columns raw)"
      by (rule process_data_InrD)
    from process_data_Inr[OF this, of instrument] g df raw show ?thesis
      by (auto simp: legs)
  qed
  from cs 1 2 3 show ?thesis
    by (intro exI[of _ ?cs]) blast
qed

subsection \<open>The batch\<close>

lemma date_loop_upt: "date_loop c e acc = acc @ [c..<e]"
proof (induction c e acc rule: date_loop.induct)
  case (1 c e acc)
  show ?case
  proof (cases "c < e")
    case True
    with 1 show ?thesis
      by (subst date_loop.simps) (simp add: upt_conv_Cons)
  next
    case False
    then show ?thesis
      by (subst date_loop.simps) simp
  qed
qed

lemma set_make_tasks: "set (make_tasks ds is) = set ds \<times> set is"
  by (auto simp: make_tasks_def)

lemma make_tasks_Nil: "make_tasks [] is = []"
  by (simp add: make_tasks_def)

lemma download_single_weekend:
  "weekend d \<Longrightarrow> download_single_date_instrument self d i w = (None, w)"
  by (auto simp: weekend_def download_single_date_instrument_def try_block_def)

lemma download_single_failure:
  assumes "download_single_date_instrument self d i w = (Some f, w')"
  shows "fst f = d \<and> fst (snd f) = i \<and> \<not> weekend d"
proof -
  from assms obtain rb where t: "try_block self d i w = (rb, w')"
    and r: "Some f = (case rb of Inl e \<Rightarrow> Some (d, i, str_exn e) | Inr u \<Rightarrow> None)"
    by (rule download_single_try_block)
  from r have "fst f = d \<and> fst (snd f) = i" by (cases rb) auto
  moreover have "\<not> weekend d"
  proof
    assume "weekend d"
    from download_single_weekend[OF this, of self i w] assms show False by simp
  qed
  ultimately show ?thesis by simp
qed

lemma download_single_fetches:
  assumes "download_single_date_instrument self date instrument w = (r, w')"
  shows "\<exists>cs. calls w' = calls w @ cs \<and>
     (\<forall>c d. GetData c d \<in> set cs \<longrightarrow> c = lower instrument \<and> d = date)"
proof -
  from assms obtain rb where t: "try_block self date instrument w = (rb, w')"
    by (rule download_single_try_block)
  from try_block_calls[OF t] obtain ps fs ws where
    cs: "calls w' = calls w @ map Mkdir ps @ fs @ map (\<lambda>(p, df). ToCsv p df) ws"
    and fs: "fs = [] \<or> fs = [GetData (lower instrument) date] \<and>
        ps = leg_directories self date instrument"
    by blast
  have "c = lower instrument \<and> d = date"
    if "GetData c d \<in> set (map Mkdir ps @ fs @ map (\<lambda>(p, df). ToCsv p df) ws)" for c d
    using that fs by auto
  with cs show ?thesis by blast
qed

lemma run_tasks_length': "run_tasks self ts w = (rs, w') \<Longrightarrow> length rs = length ts"
  by (induction ts arbitrary: w rs) (auto split: prod.splits)

lemma run_tasks_length: "length (fst (run_tasks self ts w)) = length ts"
  by (cases "run_tasks self ts w") (simp add: run_tasks_length')

lemma run_tasks_append:
  "run_tasks self (xs @ ys) w =
     (fst (run_tasks self xs w) @ fst (run_tasks self ys (snd (run_tasks self xs w))),
      snd (run_tasks self ys (snd (run_tasks self xs w))))"
  by (induction xs arbitrary: w) (auto split: prod.splits)

lemma run_tasks_nth:
  assumes "k < length ts"
  shows "fst (run_tasks self ts w) ! k =
     fst (download_single_date_instrument self (fst (ts ! k)) (snd (ts ! k))
            (snd (run_tasks self (take k ts) w)))"
proof -
  from assms have ts: "ts = take k ts @ ts ! k # drop (Suc k) ts"
    by (simp add: id_take_nth_drop)
  have "fst (run_tasks self (take k ts @ ts ! k # drop (Suc k) ts) w) ! k =
     fst (download_single_date_instrument self (fst (ts ! k)) (snd (ts ! k))
            (snd (run_tasks self (take k ts) w)))"
    using assms
    by (cases "ts ! k") (simp add: run_tasks_append nth_append run_tasks_length split: prod.splits)
  with ts show ?thesis by simp
qed

lemma run_tasks_weekday:
  "run_tasks self (weekday_tasks ts) w = (rs, w') \<Longrightarrow>
   \<exists>rs'. run_tasks self ts w = (rs', w') \<and> collect_errors rs' = collect_errors rs"
proof (induction ts arbitrary: w rs w')
  case Nil
  then show ?case by (simp add: weekday_tasks_def)
next
  case (Cons t ts)
  obtain d i where t: "t = (d, i)" by (cases t)
  show ?case
  proof (cases "weekend d")
    case True
    with Cons.prems t have "run_tasks self (weekday_tasks ts) w = (rs, w')"
      by (simp add: weekday_tasks_def)
    from Cons.IH[OF this] obtain rs' where "run_tasks self ts w = (rs', w')"
      "collect_errors rs' = collect_errors rs" by blast
    with True t show ?thesis
      by (simp add: download_single_weekend)
  next
    case False
    obtain r w1 where s: "download_single_date_instrument self d i w = (r, w1)"
      by (cases "download_single_date_instrument self d i w")
    obtain rs1 w2 where r1: "run_tasks self (weekday_tasks ts) w1 = (rs1, w2)"
      by (cases "run_tasks self (weekday_tasks ts) w1")
    from Cons.prems False t s r1 have rs: "rs = r # rs1" "w' = w2"
      by (simp_all add: weekday_tasks_def)
    from Cons.IH[OF r1] obtain rs' where "run_tasks self ts w1 = (rs', w2)"
      "collect_errors rs' = collect_errors rs1" by blast
    with s t rs show ?thesis
      by (cases r) simp_all
  qed
qed

lemma set_collect_errors: "set (collect_errors rs) = {f. Some f \<in> set rs}"
  by (induction rs rule: collect_errors.induct) auto

lemma length_collect_errors: "length (collect_errors rs) = length (filter (\<lambda>r. r \<noteq> None) rs)"
  by (induction rs rule: collect_errors.induct) auto

lemma run_tasks_failures:
  "run_tasks self ts w = (rs, w') \<Longrightarrow> Some f \<in> set rs \<Longrightarrow>
   (fst f, fst (snd f)) \<in> set ts \<and> \<not> weekend (fst f)"
proof (induction ts arbitrary: w rs w')
  case Nil
  then show ?case by simp
next
  case (Cons t ts)
  obtain d i where t: "t = (d, i)" by (cases t)
  obtain r w1 where s: "download_single_date_instrument self d i w = (r, w1)"
    by (cases "download_single_date_instrument self d i w")
  obtain rs1 w2 where r1: "run_tasks self ts w1 = (rs1, w2)"
    by (cases "run_tasks self ts w1")
  from Cons.prems(1) t s r1 have rs: "rs = r # rs1" by simp
  show ?case
  proof (cases "r = Some f")
    case True
    with s download_single_failure[of self d i w f w1] t show ?thesis by simp
  next
    case False
    with Cons.prems(2) rs have "Some f \<in> set rs1" by simp
    from Cons.IH[OF r1 this] show ?thesis by simp
  qed
qed

lemma run_tasks_fetches:
  "run_tasks self ts w = (rs, w') \<Longrightarrow>
   \<exists>cs. calls w' = calls w @ cs \<and>
     (\<forall>c d. GetData c d \<in> set cs \<longrightarrow> \<not> weekend d \<and> (\<exists>i. (d, i) \<in> set ts \<and> c = lower i))"
proof (induction ts arbitrary: w rs w')
  case Nil
  then show ?case by simp
next
  case (Cons t ts)
  obtain d i where t: "t = (d, i)" by (cases t)
  obtain r w1 where s: "download_single_date_instrument self d i w = (r, w1)"
    by (cases "download_single_date_instrument self d i w")
  obtain rs1 w2 where r1: "run_tasks self ts w1 = (rs1, w2)"
    by (cases "run_tasks self ts w1")
  from Cons.prems(1) t s r1 have w': "w' = w2" by simp
  from Cons.IH[OF r1] obtain cs2 where cs2: "calls w2 = calls w1 @ cs2"
    "\<forall>c d'. GetData c d' \<in> set cs2 \<longrightarrow> \<not> weekend d' \<and> (\<exists>i. (d', i) \<in> set ts \<and> c = lower i)"
    by blast
  from download_single_fetches[OF s] obtain cs1 where cs1: "calls w1 = calls w @ cs1"
    "\<forall>c d'. GetData c d' \<in> set cs1 \<longrightarrow> c = lower i \<and> d' = d"
    by blast
  have wk: "cs1 = []" if "weekend d"
    using download_single_weekend[OF that, of self i w] s cs1(1) by simp
  have "calls w' = calls w @ (cs1 @ cs2)"
    by (simp add: w' cs2(1) cs1(1))
  moreover have "\<not> weekend d' \<and> (\<exists>i. (d', i) \<in> set (t # ts) \<and> c = lower i)"
    if "GetData c d' \<in> set (cs1 @ cs2)" for c d'
  proof (cases "GetData c d' \<in> set cs1")
    case True
    with cs1(2) wk t show ?thesis by auto
  next
    case False
    with that cs2(2) show ?thesis by auto
  qed
  ultimately show ?case by blast
qed


lemma download_data_run:
  assumes "0 < max_workers"
  shows "download_data self s e instruments max_workers sched w =
     (Inr (collect_errors (fst (run_tasks self (sched (all_tasks s e instruments)) w))),
      snd (run_tasks self (sched (all_tasks s e instruments)) w))"
  using assms
  by (simp add: download_data_def all_tasks_def Let_def split: prod.splits)

lemma download_data_ValueError:
  assumes "max_workers \<le> 0"
  shows "download_data self s e instruments max_workers sched w =
     (Inl (ValueError ''max_workers must be greater than 0''), w)"
  using assms
  by (simp add: download_data_def Let_def)

lemma download_data_Inr:
  assumes "download_data self s e instruments max_workers sched w = (Inr report, w')"
  shows "0 < max_workers"
proof (rule ccontr)
  assume "\<not> 0 < max_workers"
  then have "max_workers \<le> 0" by simp
  from download_data_ValueError[OF this, of self s e instruments sched w] assms
  show False by simp
qed

text \<open>
  C1, as the code has it. The task list holds a task for every date of the range and
  every instrument, weekend dates included. A task on a Saturday or a Sunday returns at
  once: no failure, and the world is unchanged (no directory, no fetch, no write). So a
  batch has the report and the effects of its weekday tasks alone: running it with the
  weekend tasks removed gives the same report and the same world, no failure in the
  report has a weekend date, and no fetch is called for a weekend date.
\<close>

theorem weekend_tasks_do_nothing:
  "(weekend date \<longrightarrow> download_single_date_instrument self date instrument w = (None, w)) \<and>
   set (all_tasks s e instruments) = {d. s \<le> d \<and> d < e} \<times> set instruments \<and>
   (\<forall>report w'. download_data self s e instruments max_workers sched w = (Inr report, w') \<longrightarrow>
      download_data self s e instruments max_workers (\<lambda>ts. weekday_tasks (sched ts)) w =
        (Inr report, w') \<and>
      (\<forall>f \<in> set report. \<not> weekend (fst f)) \<and>
      (\<exists>cs. calls w' = calls w @ cs \<and> (\<forall>c d. GetData c d \<in> set cs \<longrightarrow> \<not> weekend d)))"
proof (intro conjI allI impI)
  assume "weekend date"
  then show "download_single_date_instrument self date instrument w = (None, w)"
    by (rule download_single_weekend)
next
  show "set (all_tasks s e instruments) = {d. s \<le> d \<and> d < e} \<times> set instruments"
    by (auto simp: all_tasks_def set_make_tasks date_loop_upt)
next
  fix report w'
  assume d: "download_data self s e instruments max_workers sched w = (Inr report, w')"
  then have mw: "0 < max_workers" by (rule download_data_Inr)
  let ?ts = "sched (all_tasks s e instruments)"
  obtain rs where rs: "run_tasks self ?ts w = (rs, w')" and report: "report = collect_errors rs"
    using d download_data_run[OF mw, of self s e instruments sched w]
    by (cases "run_tasks self ?ts w") simp
  obtain rs0 w0 where r0: "run_tasks self (weekday_tasks ?ts) w = (rs0, w0)"
    by (cases "run_tasks self (weekday_tasks ?ts) w")
  from run_tasks_weekday[OF r0] rs have "w0 = w'" "collect_errors rs = collect_errors rs0"
    by auto
  with r0 report
  show "download_data self s e instruments max_workers (\<lambda>ts. weekday_tasks (sched ts)) w =
        (Inr report, w')"
    by (simp add: download_data_run[OF mw])
  show "\<forall>f \<in> set report. \<not> weekend (fst f)"
    using run_tasks_failures[OF rs] by (auto simp: report set_collect_errors)
  from run_tasks_fetches[OF rs]
  show "\<exists>cs. calls w' = calls w @ cs \<and> (\<forall>c d. GetData c d \<in> set cs \<longrightarrow> \<not> weekend d)"
    by blast
qed

text \<open>
  C3. Task level: whatever exception the body of the task raises, the task returns,
  with the failure record (date, instrument, message of the exception); in particular,
  on a weekday, once the directories are there, an exception of the fetch, of the
  classification or of a write does so. The exception does not leave the task.
  Batch level: with at least one worker the batch returns a report and no error; every
  scheduled task is run, each on the world the tasks before it left, whatever they
  returned; the report holds exactly the failure records the tasks returned.
\<close>

theorem task_exceptions_become_failures:
  "(\<forall>x w0. try_block self date instrument w = (Inl x, w0) \<longrightarrow>
      download_single_date_instrument self date instrument w =
        (Some (date, instrument, str_exn x), w0)) \<and>
   (weekday date \<notin> {5, 6} \<and> create_directory_structure self date instrument w = (Inr ds, w1) \<longrightarrow>
      (\<forall>x. ma_get_data self (lower instrument) date = Inl x \<longrightarrow>
         fst (download_single_date_instrument self date instrument w) =
           Some (date, instrument, str_exn x)) \<and>
      (\<forall>raw x. ma_get_data self (lower instrument) date = Inr raw \<and>
         process_data raw instrument = Inl x \<longrightarrow>
         fst (download_single_date_instrument self date instrument w) =
           Some (date, instrument, str_exn x)) \<and>
      (\<forall>raw g x w3. ma_get_data self (lower instrument) date = Inr raw \<and>
         process_data raw instrument = Inr g \<and>
         save_data g ds date instrument (after_fetch w1 instrument date) = (Inl x, w3) \<longrightarrow>
         fst (download_single_date_instrument self date instrument w) =
           Some (date, instrument, str_exn x))) \<and>
   (0 < max_workers \<longrightarrow>
      (\<exists>rs w'. run_tasks self (sched (all_tasks s e instruments)) w = (rs, w') \<and>
         download_data self s e instruments max_workers sched w = (Inr (collect_errors rs), w') \<and>
         length rs = length (sched (all_tasks s e instruments)) \<and>
         (\<forall>k<length rs. rs ! k =
            fst (download_single_date_instrument self
                  (fst (sched (all_tasks s e instruments) ! k))
                  (snd (sched (all_tasks s e instruments) ! k))
                  (snd (run_tasks self (take k (sched (all_tasks s e instruments))) w)))) \<and>
         set (collect_errors rs) = {f. Some f \<in> set rs} \<and>
         length (collect_errors rs) = length (filter (\<lambda>r. r \<noteq> None) rs)))"
proof (intro conjI impI)
  show "\<forall>x w0. try_block self date instrument w = (Inl x, w0) \<longrightarrow>
      download_single_date_instrument self date instrument w =
        (Some (date, instrument, str_exn x), w0)"
    by (simp add: download_single_date_instrument_def)
next
  assume a: "weekday date \<notin> {5, 6} \<and>
      create_directory_structure self date instrument w = (Inr ds, w1)"
  show "\<forall>x. ma_get_data self (lower instrument) date = Inl x \<longrightarrow>
         fst (download_single_date_instrument self date instrument w) =
           Some (date, instrument, str_exn x)"
    using a by (simp add: download_single_date_instrument_def try_block_def)
  show "\<forall>raw x. ma_get_data self (lower instrument) date = Inr raw \<and>
         process_data raw instrument = Inl x \<longrightarrow>
         fst (download_single_date_instrument self date instrument w) =
           Some (date, instrument, str_exn x)"
    using a by (simp add: download_single_date_instrument_def try_block_def)
  show "\<forall>raw g x w3. ma_get_data self (lower instrument) date = Inr raw \<and>
         process_data raw instrument = Inr g \<and>
         save_data g ds date instrument (after_fetch w1 instrument date) = (Inl x, w3) \<longrightarrow>
         fst (download_single_date_instrument self date instrument w) =
           Some (date, instrument, str_exn x)"
    using a by (simp add: download_single_date_instrument_def try_block_def after_fetch_def)
next
  assume mw: "0 < max_workers"
  let ?ts = "sched (all_tasks s e instruments)"
  obtain rs w' where rs: "run_tasks self ?ts w = (rs, w')"
    by (cases "run_tasks self ?ts w")
  have 1: "download_data self s e instruments max_workers sched w = (Inr (collect_errors rs), w')"
    by (simp add: download_data_run[OF mw] rs)
  have 2: "length rs = length ?ts"
    using rs by (rule run_tasks_length')
  have 3: "\<forall>k<length rs. rs ! k =
            fst (download_single_date_instrument self (fst (?ts ! k)) (snd (?ts ! k))
                  (snd (run_tasks self (take k ?ts) w)))"
    using run_tasks_nth[of _ ?ts self w] rs 2 by simp
  from rs 1 2 3 set_collect_errors[of rs] length_collect_errors[of rs]
  show "\<exists>rs w'. run_tasks self ?ts w = (rs, w') \<and>
         download_data self s e instruments max_workers sched w = (Inr (collect_errors rs), w') \<and>
         length rs = length ?ts \<and>
         (\<forall>k<length rs. rs ! k =
            fst (download_single_date_instrument self (fst (?ts ! k)) (snd (?ts ! k))
                  (snd (run_tasks self (take k ?ts) w)))) \<and>
         set (collect_errors rs) = {f. Some f \<in> set rs} \<and>
         length (collect_errors rs) = length (filter (\<lambda>r. r \<noteq> None) rs)"
    by blast
qed

text \<open>
  C8. The dates a batch enumerates are exactly those from the start date up to, but not
  including, the end date, and the task list pairs each of them with each instrument.
  The batch (with at least one worker) runs exactly these tasks, in the order the pool
  schedules them: its report and its final world are those of running the tasks of the
  dates \<open>[s..<e]\<close> with the instruments, for any range.
  When the end date is not after the start date there is no task, and the batch (with at
  least one worker) returns an empty report and leaves the world as it is.
\<close>

theorem task_enumeration_half_open:
  "date_loop s e [] = [s..<e] \<and>
   set (all_tasks s e instruments) = {d. s \<le> d \<and> d < e} \<times> set instruments \<and>
   (0 < max_workers \<longrightarrow>
      download_data self s e instruments max_workers sched w =
        (Inr (collect_errors (fst (run_tasks self (sched (make_tasks [s..<e] instruments)) w))),
         snd (run_tasks self (sched (make_tasks [s..<e] instruments)) w))) \<and>
   (e \<le> s \<longrightarrow> all_tasks s e instruments = [] \<and>
      (0 < max_workers \<and> sched [] = [] \<longrightarrow>
         download_data self s e instruments max_workers sched w = (Inr [], w)))"
proof (intro conjI impI)
  show "date_loop s e [] = [s..<e]"
    by (simp add: date_loop_upt)
  show "set (all_tasks s e instruments) = {d. s \<le> d \<and> d < e} \<times> set instruments"
    by (auto simp: all_tasks_def set_make_tasks date_loop_upt)
next
  assume mw: "0 < max_workers"
  have "all_tasks s e instruments = make_tasks [s..<e] instruments"
    by (simp add: all_tasks_def date_loop_upt)
  with download_data_run[OF mw, of self s e instruments sched w]
  show "download_data self s e instruments max_workers sched w =
        (Inr (collect_errors (fst (run_tasks self (sched (make_tasks [s..<e] instruments)) w))),
         snd (run_tasks self (sched (make_tasks [s..<e] instruments)) w))"
    by simp
next
  assume "e \<le> s"
  then show a: "all_tasks s e instruments = []"
    by (simp add: all_tasks_def date_loop_upt make_tasks_Nil)
  assume "0 < max_workers \<and> sched [] = []"
  then show "download_data self s e instruments max_workers sched w = (Inr [], w)"
    by (simp add: download_data_run a)
qed

subsection \<open>The example runs\<close>

lemma monday_ordinal: "monday = 738886"
  by (simp add: monday_def ymd2ord_def days_before_year_def days_before_month_def
      DAYS_BEFORE_MONTH_def)

lemma saturday_ordinal: "saturday = 738891"
  by (simp add: saturday_def ymd2ord_def days_before_year_def days_before_month_def
      DAYS_BEFORE_MONTH_def)

lemma monday_fields: "year monday = 2024" "month monday = 1" "day monday = 1"
  by (simp_all add: monday_ordinal year_def month_def day_def ord2ymd_def Let_def
      DAYS_BEFORE_MONTH_def DAYS_IN_MONTH_def)

lemma monday_weekday: "weekday monday = 0" "weekday monday \<notin> {5, 6}" "\<not> weekend monday"
  by (simp_all add: monday_ordinal weekday_def weekend_def)

text \<open>The calendar conversions on a few dates, among them leap days and year ends.\<close>

lemma calendar_examples:
  "ord2ymd (ymd2ord 2024 2 29) = (2024, 2, 29)"
  "ord2ymd (ymd2ord 2023 12 31) = (2023, 12, 31)"
  "ord2ymd (ymd2ord 2000 3 1) = (2000, 3, 1)"
  "ord2ymd (ymd2ord 1900 2 28 + 1) = (1900, 3, 1)"
  "ord2ymd 1 = (1, 1, 1)"
  "ymd2ord 9999 12 31 = 3652059"
  by (simp_all add: ymd2ord_def days_before_year_def days_before_month_def is_leap_def
      ord2ymd_def Let_def DAYS_BEFORE_MONTH_def DAYS_IN_MONTH_def)

lemma saturday_weekend: "weekend saturday" "weekend (saturday + 1)"
  by (simp_all add: saturday_ordinal weekday_def weekend_def)

lemma str_examples: "str_nat 2024 = ''2024''" "str_nat (Suc 0) = ''1''"
  by (simp_all add: str_nat.simps digit_char_def)

lemma lower_nifty: "lower ''NIFTY'' = ''nifty''"
  by (simp add: lower_def lower_char_def)

lemma leg_directory_nifty:
  assumes "base_path self = [''work'', ''market_data'']"
  shows "leg_directory self monday ''NIFTY'' ''fut'' = fut_dir nifty_dirs"
    and "leg_directory self monday ''NIFTY'' ''spot'' = spot_dir nifty_dirs"
    and "leg_directory self monday ''NIFTY'' ''options'' = options_dir nifty_dirs"
  by (simp_all add: leg_directory_def monday_fields str_examples lower_nifty assms
      joinpath_def parts_def nifty_dirs_def)

lemma leg_file_nifty:
  "leg_file (fut_dir nifty_dirs) ''NIFTY'' ''fut'' monday =
     [''work'', ''market_data'', ''nifty_fut'', ''2024'', ''1'', ''nifty_fut_01_01_2024.csv'']"
  "leg_file (spot_dir nifty_dirs) ''NIFTY'' ''spot'' monday =
     [''work'', ''market_data'', ''nifty_spot'', ''2024'', ''1'', ''nifty_spot_01_01_2024.csv'']"
  "leg_file (options_dir nifty_dirs) ''NIFTY'' ''options'' monday =
     [''work'', ''market_data'', ''nifty_options'', ''2024'', ''1'', ''nifty_options_01_01_2024.csv'']"
  by (simp_all add: leg_file_def monday_fields str_examples lower_nifty zfill_def
      joinpath_def parts_def nifty_dirs_def)

lemma nifty_mkdirs:
  "mkdir_each [fut_dir nifty_dirs, spot_dir nifty_dirs, options_dir nifty_dirs] empty_world =
     (Inr (), ready_world\<lparr>calls := [Mkdir (fut_dir nifty_dirs), Mkdir (spot_dir nifty_dirs),
                                      Mkdir (options_dir nifty_dirs)]\<rparr>)"
  apply (simp add: nifty_dirs_def path_mkdir_def empty_world_def ready_world_def
     mkdir.simps is_dir_def is_file_def parent_def)
  apply auto
  done

lemma cds_empty_world:
  assumes "base_path self = [''work'', ''market_data'']"
  shows "create_directory_structure self monday ''NIFTY'' empty_world =
    (Inr nifty_dirs,
     ready_world\<lparr>calls := [Mkdir (fut_dir nifty_dirs), Mkdir (spot_dir nifty_dirs),
                            Mkdir (options_dir nifty_dirs)]\<rparr>)"
  by (simp add: create_directory_structure_def Let_def leg_directory_nifty[OF assms] nifty_mkdirs
      del: mkdir_each.simps)

lemma base_paths:
  "base_path example_downloader = [''work'', ''market_data'']"
  "base_path failing_downloader = [''work'', ''market_data'']"
  "base_path malformed_downloader = [''work'', ''market_data'']"
  by (simp_all add: example_downloader_def failing_downloader_def malformed_downloader_def)

lemma example_process: "process_data example_frame ''NIFTY'' = Inr nifty_groups"
  unfolding process_data_Inr[OF example_frame_columns]
  by (simp add: example_frame_def leg_of_def symbol_of_def cell_at_def project_row_def
        base_columns_def spot_columns_def nifty_groups_def)

lemma example_fetch:
  "ma_get_data example_downloader ''nifty'' d = Inr example_frame"
  "ma_get_data failing_downloader c d = Inl (RemoteError ''no data'')"
  by (simp_all add: example_downloader_def failing_downloader_def)

lemma nifty_groups_nonempty:
  "nonempty_groups nifty_groups nifty_dirs monday ''NIFTY'' =
     [([''work'', ''market_data'', ''nifty_fut'', ''2024'', ''1'', ''nifty_fut_01_01_2024.csv''],
       futures nifty_groups),
      ([''work'', ''market_data'', ''nifty_spot'', ''2024'', ''1'', ''nifty_spot_01_01_2024.csv''],
       spot nifty_groups),
      ([''work'', ''market_data'', ''nifty_options'', ''2024'', ''1'', ''nifty_options_01_01_2024.csv''],
       options nifty_groups)]"
  by (simp add: nonempty_groups_def leg_file_nifty)
     (simp add: nifty_groups_def base_columns_def spot_columns_def)

lemma spot_only_nonempty:
  "nonempty_groups spot_only nifty_dirs monday ''NIFTY'' =
     [([''work'', ''market_data'', ''nifty_spot'', ''2024'', ''1'', ''nifty_spot_01_01_2024.csv''],
       spot spot_only)]"
  by (simp add: nonempty_groups_def leg_file_nifty)
     (simp add: spot_only_def base_columns_def spot_columns_def)

lemma write_spot_only:
  "fst (write_all (nonempty_groups spot_only nifty_dirs monday ''NIFTY'') ready_world) = Inr ()"
  by (simp add: spot_only_nonempty to_csv_def Let_def is_dir_def parent_def ready_world_def)

lemma example_run:
  "\<exists>w'. download_single_date_instrument example_downloader monday ''NIFTY'' empty_world = (None, w') \<and>
     calls w' =
       [Mkdir [''work'', ''market_data'', ''nifty_fut'', ''2024'', ''1''],
        Mkdir [''work'', ''market_data'', ''nifty_spot'', ''2024'', ''1''],
        Mkdir [''work'', ''market_data'', ''nifty_options'', ''2024'', ''1''],
        GetData ''nifty'' monday,
        ToCsv [''work'', ''market_data'', ''nifty_fut'', ''2024'', ''1'', ''nifty_fut_01_01_2024.csv'']
          (futures nifty_groups),
        ToCsv [''work'', ''market_data'', ''nifty_spot'', ''2024'', ''1'', ''nifty_spot_01_01_2024.csv'']
          (spot nifty_groups),
        ToCsv [''work'', ''market_data'', ''nifty_options'', ''2024'', ''1'', ''nifty_options_01_01_2024.csv'']
          (options nifty_groups)]"
  apply (simp add: download_single_date_instrument_def try_block_def monday_weekday
      cds_empty_world[OF base_paths(1)] lower_nifty example_fetch example_process
      save_data_write_all nifty_groups_nonempty)
  apply (simp add: to_csv_def Let_def is_dir_def parent_def ready_world_def nifty_dirs_def)
  done

lemma failing_run:
  "download_single_date_instrument failing_downloader monday ''NIFTY'' empty_world =
     (Some (monday, ''NIFTY'', ''no data''),
      ready_world\<lparr>calls := [Mkdir (fut_dir nifty_dirs), Mkdir (spot_dir nifty_dirs),
                             Mkdir (options_dir nifty_dirs), GetData ''nifty'' monday]\<rparr>)"
  by (simp add: download_single_date_instrument_def try_block_def monday_weekday
      cds_empty_world[OF base_paths(2)] lower_nifty example_fetch)


lemma nifty_paths:
  "fut_dir nifty_dirs = [''work'', ''market_data'', ''nifty_fut'', ''2024'', ''1'']"
  "spot_dir nifty_dirs = [''work'', ''market_data'', ''nifty_spot'', ''2024'', ''1'']"
  "options_dir nifty_dirs = [''work'', ''market_data'', ''nifty_options'', ''2024'', ''1'']"
  by (simp_all add: nifty_dirs_def)

text \<open>
  The directories of NIFTY for 2024-01-01, created in the empty world and asked for
  again.
\<close>

theorem create_directory_structure_idempotent_witness:
  "list_all (unobstructed empty_world) (leg_directories example_downloader monday ''NIFTY'') \<and>
   (\<exists>w1 w2. create_directory_structure example_downloader monday ''NIFTY'' empty_world =
       (Inr nifty_dirs, w1) \<and>
     create_directory_structure example_downloader monday ''NIFTY'' w1 = (Inr nifty_dirs, w2) \<and>
     dirs w2 = dirs w1 \<and> files w2 = files w1 \<and>
     fut_dir nifty_dirs = [''work'', ''market_data'', ''nifty_fut'', ''2024'', ''1''] \<and>
     spot_dir nifty_dirs = [''work'', ''market_data'', ''nifty_spot'', ''2024'', ''1''] \<and>
     options_dir nifty_dirs = [''work'', ''market_data'', ''nifty_options'', ''2024'', ''1''])"
proof -
  note c = cds_empty_world[OF base_paths(1)]
  have "unobstructed empty_world q" for q
    by (simp add: unobstructed_def is_file_def empty_world_def list_all_iff)
  then have "list_all (unobstructed empty_world) (leg_directories example_downloader monday ''NIFTY'')"
    by (simp add: list_all_iff)
  with create_directory_structure_idempotent[of empty_world example_downloader monday "''NIFTY''"]
    c nifty_paths show ?thesis
    by blast
qed

text \<open>
  Saving a result in which only the spot group has a row: one write, the spot file;
  no futures file and no options file.
\<close>

theorem save_data_writes_nonempty_groups_witness:
  "\<exists>w'. save_data spot_only nifty_dirs monday ''NIFTY'' ready_world = (Inr (), w') \<and>
     calls w' = [ToCsv [''work'', ''market_data'', ''nifty_spot'', ''2024'', ''1'',
                        ''nifty_spot_01_01_2024.csv''] (spot spot_only)] \<and>
     files w' [''work'', ''market_data'', ''nifty_spot'', ''2024'', ''1'',
               ''nifty_spot_01_01_2024.csv''] = Some (spot spot_only) \<and>
     files w' [''work'', ''market_data'', ''nifty_fut'', ''2024'', ''1'',
               ''nifty_fut_01_01_2024.csv''] = None \<and>
     files w' [''work'', ''market_data'', ''nifty_options'', ''2024'', ''1'',
               ''nifty_options_01_01_2024.csv''] = None \<and>
     dirs w' = dirs ready_world"
proof -
  have "fst (save_data spot_only nifty_dirs monday ''NIFTY'' ready_world) = Inr ()"
    by (simp add: save_data_write_all write_spot_only)
  then obtain w' where s: "save_data spot_only nifty_dirs monday ''NIFTY'' ready_world = (Inr (), w')"
    by (cases "save_data spot_only nifty_dirs monday ''NIFTY'' ready_world") simp
  have e: "files ready_world = Map.empty" "calls ready_world = []"
    by (simp_all add: ready_world_def)
  from save_data_writes_nonempty_groups[OF s]
  have "dirs w' = dirs ready_world"
    and "calls w' = calls ready_world @
       map (\<lambda>(p, df). ToCsv p df) (nonempty_groups spot_only nifty_dirs monday ''NIFTY'')"
    and "files w' = written (nonempty_groups spot_only nifty_dirs monday ''NIFTY'') (files ready_world)"
    by simp_all
  with s show ?thesis
    by (simp add: spot_only_nonempty e)
qed

text \<open>
  The NIFTY task of 2024-01-01 with a collaborator that raises, in the empty world: a
  failure, the three directories, no file.
\<close>

theorem fetch_failure_leaves_directories_witness:
  "\<exists>w'. download_single_date_instrument failing_downloader monday ''NIFTY'' empty_world =
       (Some (monday, ''NIFTY'', ''no data''), w') \<and>
     is_dir w' [''work'', ''market_data'', ''nifty_fut'', ''2024'', ''1''] \<and>
     is_dir w' [''work'', ''market_data'', ''nifty_spot'', ''2024'', ''1''] \<and>
     is_dir w' [''work'', ''market_data'', ''nifty_options'', ''2024'', ''1''] \<and>
     files w' = files empty_world \<and> dirs w' \<noteq> dirs empty_world"
proof -
  let ?w = "ready_world\<lparr>calls := [Mkdir (fut_dir nifty_dirs), Mkdir (spot_dir nifty_dirs),
                             Mkdir (options_dir nifty_dirs), GetData ''nifty'' monday]\<rparr>"
  have called: "GetData (lower ''NIFTY'') monday \<in> set (drop (length (calls empty_world)) (calls ?w))"
    by (simp add: lower_nifty empty_world_def)
  have raised: "ma_get_data failing_downloader (lower ''NIFTY'') monday = Inl (RemoteError ''no data'')"
    by (rule example_fetch)
  note t = fetch_failure_leaves_directories[OF monday_weekday(2) raised failing_run called]
  have "dirs ?w \<noteq> dirs empty_world"
    by (simp add: ready_world_def empty_world_def)
  with t failing_run show ?thesis
    by (simp add: leg_directory_nifty[OF base_paths(2)] nifty_paths)
qed

text \<open>
  The order of the data flow (fetch, then directories, then writes) fails on the NIFTY
  task of 2024-01-01 in the empty world: its calls are three directory creations, the
  fetch, and three writes.
\<close>

theorem task_call_order_counterexample:
  "\<not> sorted (map spec_phase
       (calls (snd (download_single_date_instrument example_downloader monday ''NIFTY'' empty_world))))"
proof -
  from example_run obtain w' where
    "download_single_date_instrument example_downloader monday ''NIFTY'' empty_world = (None, w')"
    and "map spec_phase (calls w') = [1, 1, 1, 0, 2, 2, 2]"
    by auto
  then show ?thesis by simp
qed

text \<open>
  The same task has its calls in the order of the source.
\<close>

theorem task_call_order_witness:
  "map code_phase
     (calls (snd (download_single_date_instrument example_downloader monday ''NIFTY'' empty_world))) =
     [0, 0, 0, 1, 2, 2, 2] \<and>
   sorted (map code_phase
     (calls (snd (download_single_date_instrument example_downloader monday ''NIFTY'' empty_world))))"
proof -
  from example_run obtain w' where
    r: "download_single_date_instrument example_downloader monday ''NIFTY'' empty_world = (None, w')"
    and p: "map code_phase (calls w') = [0, 0, 0, 1, 2, 2, 2]"
    by auto
  from task_call_order[OF r] obtain cs where "calls w' = calls empty_world @ cs"
    "sorted (map code_phase cs)" by blast
  then have "sorted (map code_phase (calls w'))"
    by (simp add: empty_world_def)
  with r p show ?thesis by simp
qed

text \<open>
  The same task fetches with the code \<^verbatim>\<open>nifty\<close>, never with \<^verbatim>\<open>NIFTY\<close>, and its spot file
  holds the row whose symbol is \<^verbatim>\<open>NIFTY\<close>.
\<close>

theorem fetch_lowercase_classify_original_witness:
  "\<exists>w'. download_single_date_instrument example_downloader monday ''NIFTY'' empty_world = (None, w') \<and>
     GetData ''nifty'' monday \<in> set (calls w') \<and>
     GetData ''NIFTY'' monday \<notin> set (calls w') \<and>
     ToCsv [''work'', ''market_data'', ''nifty_spot'', ''2024'', ''1'', ''nifty_spot_01_01_2024.csv'']
       \<lparr>columns = spot_columns,
        rows = [[Other 1, Other 2, Text ''NIFTY'', Other 3, Other 4, Other 5, Other 6]]\<rparr>
       \<in> set (calls w')"
proof -
  from example_run obtain w' where
    r: "download_single_date_instrument example_downloader monday ''NIFTY'' empty_world = (None, w')"
    and w: "ToCsv [''work'', ''market_data'', ''nifty_spot'', ''2024'', ''1'',
        ''nifty_spot_01_01_2024.csv''] (spot nifty_groups) \<in> set (calls w')"
    by auto
  from fetch_lowercase_classify_original[OF r] obtain cs where cs: "calls w' = calls empty_world @ cs"
    and only: "\<forall>c d. GetData c d \<in> set cs \<longrightarrow> c = lower ''NIFTY'' \<and> d = monday"
    and called: "None = (None :: failure option) \<and> weekday monday \<notin> {5, 6} \<longrightarrow>
       GetData (lower ''NIFTY'') monday \<in> set cs"
    by blast
  from cs have c: "calls w' = cs" by (simp add: empty_world_def)
  from called have "GetData ''nifty'' monday \<in> set (calls w')"
    by (simp add: c monday_weekday lower_nifty)
  moreover from only have "GetData ''NIFTY'' monday \<notin> set (calls w')"
    by (auto simp: c lower_nifty)
  ultimately show ?thesis
    using r w by (auto simp: nifty_groups_def)
qed


lemma weekend_tasks: "all_tasks saturday (saturday + 2) [''NIFTY''] =
    [(saturday, ''NIFTY''), (saturday + 1, ''NIFTY'')]"
  by (simp add: all_tasks_def date_loop_upt make_tasks_def)

lemma monday_tasks: "all_tasks monday (monday + 1) [''NIFTY''] = [(monday, ''NIFTY'')]"
  by (simp add: all_tasks_def date_loop_upt make_tasks_def)

text \<open>
  "No task is created for a weekend date" fails on the range from Saturday 2024-01-06
  to Monday 2024-01-08 (excluded) with the instrument NIFTY: the task list holds the
  task of the Saturday.
\<close>

theorem weekend_tasks_are_created_counterexample:
  "weekend saturday \<and> (saturday, ''NIFTY'') \<in> set (all_tasks saturday (saturday + 2) [''NIFTY''])"
  by (simp add: all_tasks_def set_make_tasks date_loop_upt weekend_def weekday_def saturday_ordinal)

text \<open>
  On that range both tasks are created, each returns at once, and the batch returns an
  empty report and leaves the world as it was, with or without the weekend tasks.
\<close>

theorem weekend_tasks_do_nothing_witness:
  "weekend saturday \<and>
   download_single_date_instrument example_downloader saturday ''NIFTY'' empty_world =
     (None, empty_world) \<and>
   all_tasks saturday (saturday + 2) [''NIFTY''] =
     [(saturday, ''NIFTY''), (saturday + 1, ''NIFTY'')] \<and>
   download_data example_downloader saturday (saturday + 2) [''NIFTY''] 4 (\<lambda>ts. ts) empty_world =
     (Inr [], empty_world) \<and>
   download_data example_downloader saturday (saturday + 2) [''NIFTY''] 4 weekday_tasks empty_world =
     (Inr [], empty_world)"
proof -
  note t = weekend_tasks_do_nothing[of _ example_downloader "''NIFTY''" empty_world
      saturday "saturday + 2" "[''NIFTY'']" 4 "\<lambda>ts. ts"]
  from t[of saturday] saturday_weekend(1)
  have sat: "download_single_date_instrument example_downloader saturday ''NIFTY'' empty_world =
     (None, empty_world)" by blast
  from t[of "saturday + 1"] saturday_weekend(2)
  have sun: "download_single_date_instrument example_downloader (saturday + 1) ''NIFTY'' empty_world =
     (None, empty_world)" by blast
  have run: "download_data example_downloader saturday (saturday + 2) [''NIFTY''] 4 (\<lambda>ts. ts)
      empty_world = (Inr [], empty_world)"
    using weekend_tasks sat sun
    by (simp add: download_data_def all_tasks_def Let_def)
  from t[of saturday] run
  have "download_data example_downloader saturday (saturday + 2) [''NIFTY''] 4 weekday_tasks
      empty_world = (Inr [], empty_world)" by blast
  with sat run weekend_tasks saturday_weekend(1) show ?thesis by simp
qed

lemma malformed_process:
  "process_data \<lparr>columns = [''symbol'', ''close''], rows = [[Text ''NIFTY'', Other (6::nat)]]\<rparr> ''NIFTY'' =
     Inl (KeyError ''date time open high low oi volume not in index'')"
  by (simp add: process_data_def getitem_cols_def base_columns_def)

lemma blocked_dirs:
  "is_dir blocked_world (leg_directory example_downloader monday ''NIFTY'' ''fut'')"
  "is_dir blocked_world (leg_directory example_downloader monday ''NIFTY'' ''spot'')"
  "is_dir blocked_world (leg_directory example_downloader monday ''NIFTY'' ''options'')"
  by (simp_all add: leg_directory_nifty[OF base_paths(1)] nifty_paths is_dir_def blocked_world_def
      ready_world_def)

lemma blocked_cds:
  "create_directory_structure example_downloader monday ''NIFTY'' blocked_world =
     (Inr nifty_dirs,
      blocked_world\<lparr>calls := calls blocked_world @
         [Mkdir (fut_dir nifty_dirs), Mkdir (spot_dir nifty_dirs), Mkdir (options_dir nifty_dirs)]\<rparr>)"
  by (simp add: cds_existing[OF blocked_dirs] leg_directory_nifty[OF base_paths(1)])

lemma blocked_save:
  "fst (save_data nifty_groups nifty_dirs monday ''NIFTY''
     (after_fetch (blocked_world\<lparr>calls := calls blocked_world @
         [Mkdir (fut_dir nifty_dirs), Mkdir (spot_dir nifty_dirs), Mkdir (options_dir nifty_dirs)]\<rparr>)
        ''NIFTY'' monday)) =
   Inl (IsADirectoryError ''/work/market_data/nifty_fut/2024/1/nifty_fut_01_01_2024.csv'')"
  by (simp add: save_data_write_all nifty_groups_nonempty to_csv_def Let_def after_fetch_def
      is_dir_def parent_def blocked_world_def ready_world_def str_path_def)

text \<open>
  A failure from each step: a fetch that raises; a fetched frame without the base
  columns; a directory in the place of the futures file. And a batch of one failing
  task, which returns its report.
\<close>

theorem task_exceptions_become_failures_witness:
  "fst (download_single_date_instrument failing_downloader monday ''NIFTY'' empty_world) =
     Some (monday, ''NIFTY'', ''no data'') \<and>
   fst (download_single_date_instrument malformed_downloader monday ''NIFTY'' empty_world) =
     Some (monday, ''NIFTY'', ''date time open high low oi volume not in index'') \<and>
   fst (download_single_date_instrument example_downloader monday ''NIFTY'' blocked_world) =
     Some (monday, ''NIFTY'', ''/work/market_data/nifty_fut/2024/1/nifty_fut_01_01_2024.csv'') \<and>
   fst (download_data failing_downloader monday (monday + 1) [''NIFTY''] 4 (\<lambda>ts. ts) empty_world) =
     Inr [(monday, ''NIFTY'', ''no data'')]"
proof -
  have wd: "weekday monday \<notin> {5, 6}" by (rule monday_weekday)
  have a: "fst (download_single_date_instrument failing_downloader monday ''NIFTY'' empty_world) =
     Some (monday, ''NIFTY'', ''no data'')"
    using task_exceptions_become_failures[where self = failing_downloader and date = monday
        and instrument = "''NIFTY''" and w = empty_world and ds = nifty_dirs and max_workers = 4
        and s = monday and e = "monday + 1" and instruments = "[''NIFTY'']"]
      wd cds_empty_world[OF base_paths(2)] example_fetch(2)[of "lower ''NIFTY''" monday]
    by simp
  have m: "ma_get_data malformed_downloader (lower ''NIFTY'') monday =
      Inr \<lparr>columns = [''symbol'', ''close''], rows = [[Text ''NIFTY'', Other 6]]\<rparr>"
    by (simp add: malformed_downloader_def)
  have b: "fst (download_single_date_instrument malformed_downloader monday ''NIFTY'' empty_world) =
     Some (monday, ''NIFTY'', ''date time open high low oi volume not in index'')"
    using task_exceptions_become_failures[where self = malformed_downloader and date = monday
        and instrument = "''NIFTY''" and w = empty_world and ds = nifty_dirs and max_workers = 4
        and s = monday and e = "monday + 1" and instruments = "[''NIFTY'']"]
      wd cds_empty_world[OF base_paths(3)] m malformed_process
    by simp
  obtain w3 where s: "save_data nifty_groups nifty_dirs monday ''NIFTY''
     (after_fetch (blocked_world\<lparr>calls := calls blocked_world @
         [Mkdir (fut_dir nifty_dirs), Mkdir (spot_dir nifty_dirs), Mkdir (options_dir nifty_dirs)]\<rparr>)
        ''NIFTY'' monday) =
     (Inl (IsADirectoryError ''/work/market_data/nifty_fut/2024/1/nifty_fut_01_01_2024.csv''), w3)"
    using blocked_save by (metis prod.collapse)
  have c: "fst (download_single_date_instrument example_downloader monday ''NIFTY'' blocked_world) =
     Some (monday, ''NIFTY'', ''/work/market_data/nifty_fut/2024/1/nifty_fut_01_01_2024.csv'')"
    using task_exceptions_become_failures[where self = example_downloader and date = monday
        and instrument = "''NIFTY''" and w = blocked_world and ds = nifty_dirs and max_workers = 4
        and s = monday and e = "monday + 1" and instruments = "[''NIFTY'']"]
      wd blocked_cds example_fetch(1)[of monday] example_process s
    by (simp add: lower_nifty)
  have "(0::int) < 4" by simp
  from task_exceptions_become_failures[where self = failing_downloader and date = monday
        and instrument = "''NIFTY''" and w = empty_world and ds = nifty_dirs and max_workers = 4
        and sched = "\<lambda>ts. ts" and s = monday and e = "monday + 1"
        and instruments = "[''NIFTY'']",
        THEN conjunct2, THEN conjunct2, THEN mp, OF this]
  obtain rs w' where "run_tasks failing_downloader (all_tasks monday (monday + 1) [''NIFTY''])
        empty_world = (rs, w')"
    and "download_data failing_downloader monday (monday + 1) [''NIFTY''] 4 (\<lambda>ts. ts) empty_world =
       (Inr (collect_errors rs), w')"
    by blast
  moreover have "fst (run_tasks failing_downloader (all_tasks monday (monday + 1) [''NIFTY''])
      empty_world) = [Some (monday, ''NIFTY'', ''no data'')]"
    unfolding monday_tasks by (simp add: failing_run)
  ultimately have d: "fst (download_data failing_downloader monday (monday + 1) [''NIFTY''] 4
      (\<lambda>ts. ts) empty_world) = Inr [(monday, ''NIFTY'', ''no data'')]"
    by simp
  from a b c d show ?thesis by simp
qed

text \<open>
  Two dates from Monday 2024-01-01 to Wednesday (excluded); the batch of the one-day
  range of that Monday runs its task, whose fetch raises, and reports it; no task and an
  empty report from Saturday 2024-01-06 back to Monday 2024-01-01.
\<close>

theorem task_enumeration_half_open_witness:
  "date_loop monday (monday + 2) [] = [monday, monday + 1] \<and>
   fst (download_data failing_downloader monday (monday + 1) [''NIFTY''] 4 (\<lambda>ts. ts)
     empty_world) = Inr [(monday, ''NIFTY'', ''no data'')] \<and>
   monday \<le> saturday \<and>
   all_tasks saturday monday [''NIFTY'', ''BANKNIFTY''] = [] \<and>
   download_data example_downloader saturday monday [''NIFTY'', ''BANKNIFTY''] 4 (\<lambda>ts. ts)
     empty_world = (Inr [], empty_world)"
proof -
  have le: "monday \<le> saturday"
    by (simp add: monday_ordinal saturday_ordinal)
  from task_enumeration_half_open[of monday "monday + 2", THEN conjunct1]
  have "date_loop monday (monday + 2) [] = [monday, monday + 1]"
    by simp
  moreover have "fst (download_data failing_downloader monday (monday + 1) [''NIFTY''] 4
      (\<lambda>ts. ts) empty_world) = Inr [(monday, ''NIFTY'', ''no data'')]"
  proof -
    have "(0::int) < 4" by simp
    with task_enumeration_half_open[where s = monday and e = "monday + 1"
        and instruments = "[''NIFTY'']" and max_workers = 4 and sched = "\<lambda>ts. ts"
        and self = failing_downloader and w = empty_world]
    have "fst (download_data failing_downloader monday (monday + 1) [''NIFTY''] 4 (\<lambda>ts. ts)
        empty_world) =
      Inr (collect_errors (fst (run_tasks failing_downloader
        (make_tasks [monday..<monday + 1] [''NIFTY'']) empty_world)))"
      by simp
    moreover have "make_tasks [monday..<monday + 1] [''NIFTY''] = [(monday, ''NIFTY'')]"
      by (simp add: make_tasks_def)
    ultimately show ?thesis
      by (simp add: failing_run)
  qed
  moreover from task_enumeration_half_open[where s = saturday and e = monday
      and instruments = "[''NIFTY'', ''BANKNIFTY'']" and max_workers = 4 and sched = "\<lambda>ts. ts"
      and self = example_downloader and w = empty_world,
      THEN conjunct2, THEN conjunct2, THEN conjunct2, THEN mp, OF le]
  have "all_tasks saturday monday [''NIFTY'', ''BANKNIFTY''] = [] \<and>
     download_data example_downloader saturday monday [''NIFTY'', ''BANKNIFTY''] 4 (\<lambda>ts. ts)
       empty_world = (Inr [], empty_world)"
    by simp
  ultimately show ?thesis using le by simp
qed

end
